theory Spec2Isabelle
  imports Main
begin

section \<open>Data model\<close>

text \<open>
  Modelled from the spec: the declaration of \<open>AlertState\<close> is not part of handler.go.
  The fields are the ones the spec lists and handler.go reads. \<open>Status\<close> is compared
  with the Consul constant \<open>api.HealthPassing\<close>, the string "passing".
\<close>

record AlertState =
  Service :: string
  Tag :: string
  Node :: string
  Status :: string
  Message :: string
  Details :: string

definition HealthPassing :: string where
  "HealthPassing = ''passing''"

text \<open>
  A pointer to a logrus logger: the process-wide standard logger behind the package
  functions \<open>log.Error\<close> and \<open>log.Errorf\<close>, or a logger object of its own.
\<close>

datatype logger_ptr = std_logger | logger_at nat

text \<open>
  The handler structs. Go's \<open>int\<close> is modelled by \<open>int\<close>, negative values included. The
  only arithmetic on it is \<open>tries++\<close>, which runs once after each failed attempt and its
  sleep of five seconds, and \<open>tries\<close> never exceeds \<open>MaxRetries + 1\<close>: the model is exact
  for every \<open>MaxRetries\<close> below the largest \<open>int\<close>, and the increment could wrap around
  only after as many failed attempts as that largest value.
\<close>

record StdoutHandler =
  LogLevel :: string
  logger :: logger_ptr

record EmailHandler =
  Recipients :: "string list"
  MaxRetries :: int

record PagerdutyHandler =
  ServiceKey :: string
  MaxRetries :: int

record SlackHandler =
  Token :: string
  ChannelName :: string
  MaxRetries :: int

text \<open>The interface \<open>AlertHandler\<close> with its four implementations.\<close>

datatype AlertHandler =
    Stdout StdoutHandler
  | Email EmailHandler
  | Pagerduty PagerdutyHandler
  | Slack SlackHandler

section \<open>The libraries the handlers call\<close>

text \<open>logrus levels.\<close>

datatype Level = PanicLevel | FatalLevel | ErrorLevel | WarnLevel | InfoLevel | DebugLevel

text \<open>\<open>net.MX\<close>.\<close>

record MX =
  Host :: string
  Pref :: nat

text \<open>
  A gomail message: the header fields set so far and the body with its content type.
  An address header keeps the address and the display name.
\<close>

datatype header_value = Address string string | Text "string list"

record gomail_Message =
  header :: "string \<rightharpoonup> header_value"
  body :: "(string \<times> string) option"

text \<open>A gomail dialer as \<open>NewPlainDialer\<close> fills it.\<close>

record Dialer =
  DialHost :: string
  Port :: int
  Username :: string
  Password :: string

text \<open>The gopherduty client with the two fields that handler.go sets.\<close>

record PagerDuty =
  ClientKey :: string
  MaxRetry :: int

datatype pd_request =
    Trigger string string string string string
  | Resolve string string string

text \<open>\<open>slack.Attachment\<close>, the fields handler.go fills, and \<open>slack.WebhookMessage\<close>.\<close>

record Attachment =
  Color :: string
  Fallback :: string
  AuthorName :: string
  AuthorSubname :: string
  AuthorLink :: string
  AuthorIcon :: string
  AttText :: string
  Footer :: string
  FooterIcon :: string
  Ts :: string

record WebhookMessage =
  Attachments :: "Attachment list"

section \<open>Effects\<close>

text \<open>
  Everything a handler does to the outside world is an event. A call that has an answer
  records the answer it got: an error is its message, \<open>None\<close> is a nil error.
\<close>

datatype event =
    LogEntry logger_ptr Level string
  | Println string
  | Sleep nat
  | MXLookup string "string + MX list"
  | SendMail Dialer gomail_Message "string option"
  | PagerDutyCall PagerDuty pd_request "string list"
  | PostWebhook string WebhookMessage "string option"

text \<open>What a Go panic carries, and how a call ends.\<close>

datatype panic_value = IndexOutOfRange nat nat | LogrusEntry Level string

datatype outcome = Normal | Panic panic_value | Exit int

text \<open>
  The state a call of \<open>Alert\<close> runs in. \<open>receiver\<close> is the handler object the caller
  holds and \<open>alert\<close> is the record behind the \<open>*AlertState\<close> argument (a valid pointer).
  \<open>events\<close> is what has been done so far, oldest first. The remaining fields are the
  answers the outside world will give: \<open>mx_replies s 0\<close> is the answer to the next MX
  lookup, \<open>mx_replies s 1\<close> to the one after it, and so on for the mail server, the
  PagerDuty API (the \<open>Errors\<close> of the response), the Slack webhook and the clock
  (\<open>time.Now().Unix()\<close>).
\<close>

record state =
  receiver :: AlertHandler
  alert :: AlertState
  events :: "event list"
  mx_replies :: "nat \<Rightarrow> string + MX list"
  send_replies :: "nat \<Rightarrow> string option"
  pd_replies :: "nat \<Rightarrow> string list"
  post_replies :: "nat \<Rightarrow> string option"
  clock :: "nat \<Rightarrow> int"

definition emit :: "event \<Rightarrow> state \<Rightarrow> state" where
  "emit e s = s\<lparr>events := events s @ [e]\<rparr>"

text \<open>The events a run from \<open>s\<close> to \<open>s'\<close> has added.\<close>

definition new_events :: "state \<Rightarrow> state \<Rightarrow> event list" where
  "new_events s s' = drop (length (events s)) (events s')"

text \<open>A \<open>for ... range\<close> loop: it ends early when the body does not end normally.\<close>

fun for_range :: "('a \<Rightarrow> state \<Rightarrow> outcome \<times> state) \<Rightarrow> 'a list \<Rightarrow> state \<Rightarrow> outcome \<times> state" where
  "for_range step [] s = (Normal, s)"
| "for_range step (x # xs) s =
     (case step x s of
        (Normal, s') \<Rightarrow> for_range step xs s'
      | (out, s') \<Rightarrow> (out, s'))"

text \<open>Indexing with Go's bounds check.\<close>

definition index :: "'a list \<Rightarrow> nat \<Rightarrow> panic_value + 'a" where
  "index xs i = (if i < length xs then Inr (xs ! i) else Inl (IndexOutOfRange i (length xs)))"

subsection \<open>logrus\<close>

text \<open>
  \<open>Panic\<close> logs the entry and panics with it, \<open>Fatal\<close> logs and exits the process with
  status 1, the other levels log and return. A \<open>LogEntry\<close> event is the entry handed to
  the logger; whether the logger's output shows it depends on the level the logger was
  set to, outside handler.go. The logger of a \<open>StdoutHandler\<close> is taken to be a valid
  pointer.
\<close>

definition log_at :: "logger_ptr \<Rightarrow> Level \<Rightarrow> string \<Rightarrow> state \<Rightarrow> state" where
  "log_at l lvl line s = emit (LogEntry l lvl line) s"

definition Logger_Panic :: "logger_ptr \<Rightarrow> string \<Rightarrow> state \<Rightarrow> outcome \<times> state" where
  "Logger_Panic l line s = (Panic (LogrusEntry PanicLevel line), log_at l PanicLevel line s)"

definition Logger_Fatal :: "logger_ptr \<Rightarrow> string \<Rightarrow> state \<Rightarrow> outcome \<times> state" where
  "Logger_Fatal l line s = (Exit 1, log_at l FatalLevel line s)"

definition Logger_Error :: "logger_ptr \<Rightarrow> string \<Rightarrow> state \<Rightarrow> outcome \<times> state" where
  "Logger_Error l line s = (Normal, log_at l ErrorLevel line s)"

definition Logger_Warn :: "logger_ptr \<Rightarrow> string \<Rightarrow> state \<Rightarrow> outcome \<times> state" where
  "Logger_Warn l line s = (Normal, log_at l WarnLevel line s)"

definition Logger_Info :: "logger_ptr \<Rightarrow> string \<Rightarrow> state \<Rightarrow> outcome \<times> state" where
  "Logger_Info l line s = (Normal, log_at l InfoLevel line s)"

definition Logger_Debug :: "logger_ptr \<Rightarrow> string \<Rightarrow> state \<Rightarrow> outcome \<times> state" where
  "Logger_Debug l line s = (Normal, log_at l DebugLevel line s)"

text \<open>\<open>log.Error\<close> and \<open>log.Errorf\<close> of the standard logger, the text already formatted.\<close>

definition log_Error :: "string \<Rightarrow> state \<Rightarrow> state" where
  "log_Error line s = log_at std_logger ErrorLevel line s"

subsection \<open>gopherduty\<close>

text \<open>
  \<open>Trigger\<close> and \<open>Resolve\<close> return a response, never nil, of which handler.go reads the
  list \<open>Errors\<close>; the client does its own retries behind the call.
\<close>

definition NewClient :: "string \<Rightarrow> PagerDuty" where
  "NewClient serviceKey = \<lparr>ClientKey = serviceKey, MaxRetry = 0\<rparr>"

definition pd_call :: "PagerDuty \<Rightarrow> pd_request \<Rightarrow> state \<Rightarrow> string list \<times> state" where
  "pd_call client req s =
     (pd_replies s 0,
      emit (PagerDutyCall client req (pd_replies s 0))
        (s\<lparr>pd_replies := (\<lambda>n. pd_replies s (Suc n))\<rparr>))"

definition client_Trigger ::
  "PagerDuty \<Rightarrow> string \<Rightarrow> string \<Rightarrow> string \<Rightarrow> string \<Rightarrow> string \<Rightarrow> state \<Rightarrow> string list \<times> state" where
  "client_Trigger client incidentKey description cl clientUrl details s =
     pd_call client (Trigger incidentKey description cl clientUrl details) s"

definition client_Resolve ::
  "PagerDuty \<Rightarrow> string \<Rightarrow> string \<Rightarrow> string \<Rightarrow> state \<Rightarrow> string list \<times> state" where
  "client_Resolve client incidentKey description details s =
     pd_call client (Resolve incidentKey description details) s"

subsection \<open>strings, strconv, fmt, time\<close>

text \<open>
  \<open>strings.ToLower\<close>: a string of ASCII bytes is mapped byte by byte, A to Z becoming
  a to z; any other string goes through the Unicode tables, which are the parameter
  \<open>unicode_lower\<close> (they map some non-ASCII letters to ASCII ones).
\<close>

definition is_ascii :: "char \<Rightarrow> bool" where
  "is_ascii c = ((of_char c :: nat) < 128)"

text \<open>
  For a byte from A (65) to Z (90), adding \<open>'a' - 'A'\<close>, which is 32, sets the bit of
  value 32 and leaves the others.
\<close>

definition lower_byte :: "char \<Rightarrow> char" where
  "lower_byte c =
     (if (65::nat) \<le> of_char c \<and> (of_char c :: nat) \<le> 90
      then (case c of Char b0 b1 b2 b3 b4 b5 b6 b7 \<Rightarrow> Char b0 b1 b2 b3 b4 True b6 b7)
      else c)"

definition ToLower :: "(string \<Rightarrow> string) \<Rightarrow> string \<Rightarrow> string" where
  "ToLower unicode_lower s = (if list_all is_ascii s then map lower_byte s else unicode_lower s)"

text \<open>
  \<open>strings.Split\<close> with a separator of one byte, which is what both calls in
  handler.go pass: the pieces between the separators, one more than there are separators.
\<close>

fun Split :: "string \<Rightarrow> char \<Rightarrow> string list" where
  "Split [] sep = [[]]"
| "Split (c # cs) sep =
     (if c = sep then [] # Split cs sep
      else (case Split cs sep of [] \<Rightarrow> [[c]] | p # ps \<Rightarrow> (c # p) # ps))"

text \<open>\<open>strconv.FormatInt\<close> in base 10.\<close>

fun digits :: "nat \<Rightarrow> string" where
  "digits n =
     (if n < 10 then [''0123456789'' ! n]
      else digits (n div 10) @ [''0123456789'' ! (n mod 10)])"

definition FormatInt :: "int \<Rightarrow> string" where
  "FormatInt i = (if i < 0 then CHR ''-'' # digits (nat (- i)) else digits (nat i))"

definition fmt_Println :: "string \<Rightarrow> state \<Rightarrow> state" where
  "fmt_Println line s = emit (Println line) s"

text \<open>\<open>time.Sleep\<close>, in seconds, and \<open>time.Now().Unix()\<close>.\<close>

definition time_Sleep :: "nat \<Rightarrow> state \<Rightarrow> state" where
  "time_Sleep seconds s = emit (Sleep seconds) s"

definition time_Now_Unix :: "state \<Rightarrow> int \<times> state" where
  "time_Now_Unix s = (clock s 0, s\<lparr>clock := (\<lambda>n. clock s (Suc n))\<rparr>)"

subsection \<open>net, gomail, slack\<close>

definition net_LookupMX :: "string \<Rightarrow> state \<Rightarrow> (string + MX list) \<times> state" where
  "net_LookupMX name s =
     (mx_replies s 0,
      emit (MXLookup name (mx_replies s 0)) (s\<lparr>mx_replies := (\<lambda>n. mx_replies s (Suc n))\<rparr>))"

definition NewMessage :: gomail_Message where
  "NewMessage = \<lparr>header = Map.empty, body = None\<rparr>"

definition SetAddressHeader :: "string \<Rightarrow> string \<Rightarrow> string \<Rightarrow> gomail_Message \<Rightarrow> gomail_Message" where
  "SetAddressHeader field address name m = m\<lparr>header := (header m)(field \<mapsto> Address address name)\<rparr>"

definition SetHeader :: "string \<Rightarrow> string list \<Rightarrow> gomail_Message \<Rightarrow> gomail_Message" where
  "SetHeader field vs m = m\<lparr>header := (header m)(field \<mapsto> Text vs)\<rparr>"

definition SetBody :: "string \<Rightarrow> string \<Rightarrow> gomail_Message \<Rightarrow> gomail_Message" where
  "SetBody contentType text m = m\<lparr>body := Some (contentType, text)\<rparr>"

definition NewPlainDialer :: "string \<Rightarrow> int \<Rightarrow> string \<Rightarrow> string \<Rightarrow> Dialer" where
  "NewPlainDialer host port username password =
     \<lparr>DialHost = host, Port = port, Username = username, Password = password\<rparr>"

definition DialAndSend :: "Dialer \<Rightarrow> gomail_Message \<Rightarrow> state \<Rightarrow> string option \<times> state" where
  "DialAndSend d m s =
     (send_replies s 0,
      emit (SendMail d m (send_replies s 0)) (s\<lparr>send_replies := (\<lambda>n. send_replies s (Suc n))\<rparr>))"

definition slack_PostWebhook :: "string \<Rightarrow> WebhookMessage \<Rightarrow> state \<Rightarrow> string option \<times> state" where
  "slack_PostWebhook url msg s =
     (post_replies s 0,
      emit (PostWebhook url msg (post_replies s 0))
        (s\<lparr>post_replies := (\<lambda>n. post_replies s (Suc n))\<rparr>))"

section \<open>StdoutHandler.Alert\<close>

text \<open>The body of the loop over the lines: the switch on the lower-cased level.\<close>

definition stdout_line :: "(string \<Rightarrow> string) \<Rightarrow> StdoutHandler \<Rightarrow> string \<Rightarrow> state \<Rightarrow> outcome \<times> state" where
  "stdout_line unicode_lower handler line s =
     (let lvl = ToLower unicode_lower (LogLevel handler) in
      if lvl = ''panic'' then Logger_Panic (logger handler) line s
      else if lvl = ''fatal'' then Logger_Fatal (logger handler) line s
      else if lvl = ''error'' then Logger_Error (logger handler) line s
      else if lvl = ''warn'' \<or> lvl = ''warning'' then Logger_Warn (logger handler) line s
      else if lvl = ''info'' then Logger_Info (logger handler) line s
      else if lvl = ''debug'' then Logger_Debug (logger handler) line s
      else (Normal, s))"

definition StdoutHandler_Alert ::
  "(string \<Rightarrow> string) \<Rightarrow> StdoutHandler \<Rightarrow> string \<Rightarrow> state \<Rightarrow> outcome \<times> state" where
  "StdoutHandler_Alert unicode_lower handler datacenter s =
     (let text = [Message (alert s)];
          text = (if Details (alert s) \<noteq> ''''
                  then text @ Split (Details (alert s)) CHR ''\<newline>'' else text)
      in for_range (stdout_line unicode_lower handler) text s)"

section \<open>EmailHandler.Alert\<close>

text \<open>The retry loop, from \<open>tries\<close> on.\<close>

function email_retry :: "EmailHandler \<Rightarrow> Dialer \<Rightarrow> gomail_Message \<Rightarrow> int \<Rightarrow> state \<Rightarrow> state" where
  "email_retry handler d m tries s =
     (if tries \<le> EmailHandler.MaxRetries handler then
        (case DialAndSend d m s of
           (Some err, s1) \<Rightarrow>
             email_retry handler d m (tries + 1)
               (time_Sleep 5
                 (log_Error ''Retrying email in 5s...''
                   (log_Error (''Error sending alert email: '' @ err) s1)))
         | (None, s1) \<Rightarrow> s1)
      else s)"
  by pat_completeness auto
termination
  by (relation "measure (\<lambda>(handler, d, m, tries, s). nat (EmailHandler.MaxRetries handler + 1 - tries))")
     auto

text \<open>The body of the loop over the recipients; \<open>continue\<close> ends it normally.\<close>

definition email_recipient :: "EmailHandler \<Rightarrow> string \<Rightarrow> state \<Rightarrow> outcome \<times> state" where
  "email_recipient handler recipient s =
     (case index (Split recipient CHR ''@'') 1 of
        Inl p \<Rightarrow> (Panic p, s)
      | Inr domain \<Rightarrow>
          (case net_LookupMX domain s of
             (Inl err, s1) \<Rightarrow> (Normal, log_Error (''Error looking up email server: '' @ err) s1)
           | (Inr records, s1) \<Rightarrow>
               (let m = NewMessage;
                    m = SetAddressHeader ''From'' ''consul-alerting@noreply.com'' ''Consul Alerting'' m;
                    m = SetAddressHeader ''To'' recipient '''' m;
                    m = SetHeader ''Subject'' [Message (alert s1)] m;
                    m = SetBody ''text/plain'' (Details (alert s1)) m
                in case index records 0 of
                     Inl p \<Rightarrow> (Panic p, s1)
                   | Inr r \<Rightarrow>
                       (Normal, email_retry handler (NewPlainDialer (Host r) 25 '''' '''') m 0 s1))))"

definition EmailHandler_Alert :: "EmailHandler \<Rightarrow> string \<Rightarrow> state \<Rightarrow> outcome \<times> state" where
  "EmailHandler_Alert handler datacenter s =
     for_range (email_recipient handler) (Recipients handler) s"

section \<open>PagerdutyHandler.Alert\<close>

definition PagerdutyHandler_Alert :: "PagerdutyHandler \<Rightarrow> string \<Rightarrow> state \<Rightarrow> outcome \<times> state" where
  "PagerdutyHandler_Alert handler datacenter s =
     (let client = (NewClient (ServiceKey handler))\<lparr>MaxRetry := PagerdutyHandler.MaxRetries handler\<rparr>;
          incidentKey = datacenter @ ''-'' @ Service (alert s) @ ''-'' @ Tag (alert s)
                        @ ''-'' @ Node (alert s);
          (resp, s1) =
            (if Status (alert s) \<noteq> HealthPassing
             then client_Trigger client incidentKey (Message (alert s)) '''' '''' (Details (alert s)) s
             else client_Resolve client incidentKey (Message (alert s)) (Details (alert s)) s)
      in for_range
           (\<lambda>err s'. (Normal,
              log_Error (''Error sending alert to PagerDuty: '' @ err @ '' (details: ''
                         @ Details (alert s') @ '', message: '' @ Message (alert s') @ '')'') s'))
           resp s1)"

section \<open>SlackHandler.Alert\<close>

text \<open>\<open>fmt.Sprintf(slackMessageFormat, a, b)\<close>.\<close>

definition slackMessageFormat :: "string \<Rightarrow> string \<Rightarrow> string" where
  "slackMessageFormat a b = ''\<newline>*'' @ a @ ''*\<newline>'' @ b @ ''\<newline>''"

function slack_retry :: "SlackHandler \<Rightarrow> string \<Rightarrow> int \<Rightarrow> state \<Rightarrow> state" where
  "slack_retry handler message tries s =
     (if tries \<le> SlackHandler.MaxRetries handler then
        (case time_Now_Unix s of (now, s1) \<Rightarrow>
           (let attachment =
                  \<lparr>Color = ''good'',
                   Fallback = '''',
                   AuthorName = ''https://github.com/kyhavlov/consul-alerting'',
                   AuthorSubname = ''github.com'',
                   AuthorLink = ''https://github.com/kyhavlov'',
                   AuthorIcon = ''https://avatars2.githubusercontent.com/u/4177697?s=400&v=4'',
                   AttText = message,
                   Footer = ''consul-alerting'',
                   FooterIcon = ''https://platform.slack-edge.com/img/default_application_icon.png'',
                   Ts = FormatInt now\<rparr>;
                msg = \<lparr>Attachments = [attachment]\<rparr>
            in case slack_PostWebhook (Token handler) msg s1 of
                 (Some err, s2) \<Rightarrow>
                   slack_retry handler message (tries + 1)
                     (time_Sleep 5
                       (log_Error ''Retrying alert to slack in 5s...''
                         (log_Error (''Error sending alert to Slack (channel: ''
                                     @ ChannelName handler @ ''): '' @ err)
                           (fmt_Println err s2))))
               | (None, s2) \<Rightarrow> s2))
      else s)"
  by pat_completeness auto
termination
  by (relation "measure (\<lambda>(handler, message, tries, s). nat (SlackHandler.MaxRetries handler + 1 - tries))")
     auto

definition SlackHandler_Alert :: "SlackHandler \<Rightarrow> string \<Rightarrow> state \<Rightarrow> outcome \<times> state" where
  "SlackHandler_Alert handler datacenter s =
     (let message = slackMessageFormat (Message (alert s)) (Details (alert s))
      in (Normal, slack_retry handler message 0 s))"

section \<open>A call through the interface\<close>

definition Alert :: "(string \<Rightarrow> string) \<Rightarrow> string \<Rightarrow> state \<Rightarrow> outcome \<times> state" where
  "Alert unicode_lower datacenter s =
     (case receiver s of
        Stdout handler \<Rightarrow> StdoutHandler_Alert unicode_lower handler datacenter s
      | Email handler \<Rightarrow> EmailHandler_Alert handler datacenter s
      | Pagerduty handler \<Rightarrow> PagerdutyHandler_Alert handler datacenter s
      | Slack handler \<Rightarrow> SlackHandler_Alert handler datacenter s)"

section \<open>Reading a list of events\<close>

fun log_entries :: "event list \<Rightarrow> (logger_ptr \<times> Level \<times> string) list" where
  "log_entries [] = []"
| "log_entries (LogEntry l lvl line # es) = (l, lvl, line) # log_entries es"
| "log_entries (_ # es) = log_entries es"

fun lookups :: "event list \<Rightarrow> string list" where
  "lookups [] = []"
| "lookups (MXLookup name r # es) = name # lookups es"
| "lookups (_ # es) = lookups es"

fun sends :: "event list \<Rightarrow> (Dialer \<times> gomail_Message \<times> string option) list" where
  "sends [] = []"
| "sends (SendMail d m r # es) = (d, m, r) # sends es"
| "sends (_ # es) = sends es"

fun posts :: "event list \<Rightarrow> (string \<times> WebhookMessage \<times> string option) list" where
  "posts [] = []"
| "posts (PostWebhook url msg r # es) = (url, msg, r) # posts es"
| "posts (_ # es) = posts es"

text \<open>The PagerDuty requests in a list of events, and the incident key of a request.\<close>

fun pd_requests :: "event list \<Rightarrow> pd_request list" where
  "pd_requests [] = []"
| "pd_requests (PagerDutyCall c r e # es) = r # pd_requests es"
| "pd_requests (_ # es) = pd_requests es"

fun request_key :: "pd_request \<Rightarrow> string" where
  "request_key (Trigger k _ _ _ _) = k"
| "request_key (Resolve k _ _) = k"

section \<open>What a failed attempt leaves behind\<close>

text \<open>
  The events of one failed delivery by mail, \<open>r\<close> being the error returned: the attempt,
  the two log entries and the sleep of five seconds.
\<close>

abbreviation email_failed :: "Dialer \<Rightarrow> gomail_Message \<Rightarrow> string option \<Rightarrow> event list" where
  "email_failed d m r \<equiv>
     [SendMail d m r,
      LogEntry std_logger ErrorLevel (''Error sending alert email: '' @ the r),
      LogEntry std_logger ErrorLevel ''Retrying email in 5s...'',
      Sleep 5]"

text \<open>The webhook message posted to Slack at time \<open>now\<close>.\<close>

abbreviation slack_payload :: "string \<Rightarrow> int \<Rightarrow> WebhookMessage" where
  "slack_payload message now \<equiv>
     \<lparr>Attachments =
        [\<lparr>Color = ''good'',
          Fallback = '''',
          AuthorName = ''https://github.com/kyhavlov/consul-alerting'',
          AuthorSubname = ''github.com'',
          AuthorLink = ''https://github.com/kyhavlov'',
          AuthorIcon = ''https://avatars2.githubusercontent.com/u/4177697?s=400&v=4'',
          AttText = message,
          Footer = ''consul-alerting'',
          FooterIcon = ''https://platform.slack-edge.com/img/default_application_icon.png'',
          Ts = FormatInt now\<rparr>]\<rparr>"

text \<open>
  The events of one failed post to Slack: the post, the error printed, the two log
  entries and the sleep of five seconds.
\<close>

abbreviation slack_failed :: "SlackHandler \<Rightarrow> string \<Rightarrow> int \<Rightarrow> string option \<Rightarrow> event list" where
  "slack_failed h message now r \<equiv>
     [PostWebhook (Token h) (slack_payload message now) r,
      Println (the r),
      LogEntry std_logger ErrorLevel
        (''Error sending alert to Slack (channel: '' @ ChannelName h @ ''): '' @ the r),
      LogEntry std_logger ErrorLevel ''Retrying alert to slack in 5s...'',
      Sleep 5]"

section \<open>Scenarios\<close>

text \<open>
  The entity of the specification's example scenarios, and answers of the outside world
  to run the handlers against.
\<close>

definition web_critical :: AlertState where
  "web_critical =
     \<lparr>Service = ''web'', Tag = ''v2'', Node = ''node-1'', Status = ''critical'',
      Message = ''web unhealthy'', Details = ''line1\<newline>line2''\<rparr>"

definition web_passing :: AlertState where
  "web_passing = web_critical\<lparr>Status := ''passing'', Message := ''web healthy'', Details := ''''\<rparr>"

definition mx_found :: "nat \<Rightarrow> string + MX list" where
  "mx_found n = Inr [\<lparr>Host = ''mx.example.com'', Pref = 10\<rparr>]"

definition mx_first_fails :: "nat \<Rightarrow> string + MX list" where
  "mx_first_fails n =
     (if n = 0 then Inl ''no such host'' else Inr [\<lparr>Host = ''mx.example.com'', Pref = 10\<rparr>])"

definition always_refused :: "nat \<Rightarrow> string option" where
  "always_refused n = Some ''connection refused''"

definition third_accepted :: "nat \<Rightarrow> string option" where
  "third_accepted n = (if n < 2 then Some ''connection refused'' else None)"

definition two_errors :: "nat \<Rightarrow> string list" where
  "two_errors n = [''invalid key'', ''rate limited'']"

definition ticking :: "nat \<Rightarrow> int" where
  "ticking n = 1500000000 + 5 * int n"

definition scenario ::
  "AlertHandler \<Rightarrow> AlertState \<Rightarrow> (nat \<Rightarrow> string + MX list) \<Rightarrow> (nat \<Rightarrow> string option) \<Rightarrow> state" where
  "scenario h a mx deliveries =
     \<lparr>receiver = h, alert = a, events = [], mx_replies = mx, send_replies = deliveries,
      pd_replies = two_errors, post_replies = deliveries, clock = ticking\<rparr>"

definition pagerduty_example :: PagerdutyHandler where
  "pagerduty_example = \<lparr>ServiceKey = ''0123456789abcdef'', MaxRetries = 2\<rparr>"

definition console :: "string \<Rightarrow> StdoutHandler" where
  "console level = \<lparr>LogLevel = level, logger = logger_at 0\<rparr>"

definition at_console :: "string \<Rightarrow> state" where
  "at_console level = scenario (Stdout (console level)) web_critical mx_found always_refused"

definition mail_example :: EmailHandler where
  "mail_example = \<lparr>Recipients = [''a@example.com''], MaxRetries = 2\<rparr>"

definition slack_example :: SlackHandler where
  "slack_example = \<lparr>Token = ''T000/B000/XXXX'', ChannelName = ''#ops'', MaxRetries = 2\<rparr>"


definition at_mail :: "(nat \<Rightarrow> string + MX list) \<Rightarrow> (nat \<Rightarrow> string option) \<Rightarrow> state" where
  "at_mail mx deliveries = scenario (Email mail_example) web_critical mx deliveries"

definition at_slack :: "(nat \<Rightarrow> string option) \<Rightarrow> state" where
  "at_slack deliveries = scenario (Slack slack_example) web_critical mx_found deliveries"


definition mail_two :: EmailHandler where
  "mail_two = \<lparr>Recipients = [''a@example.com'', ''b@example.org''], MaxRetries = 2\<rparr>"

definition at_mail_two :: state where
  "at_mail_two = scenario (Email mail_two) web_critical mx_first_fails always_refused"

definition mx_no_records :: "nat \<Rightarrow> string + MX list" where
  "mx_no_records n = Inr []"

definition mail_bad :: EmailHandler where
  "mail_bad = \<lparr>Recipients = [''a@example.com'', ''ops'', ''c@example.net''], MaxRetries = 2\<rparr>"

text \<open>The message \<open>EmailHandler.Alert\<close> composes for a recipient, as the calls build it.\<close>

abbreviation alert_mail :: "string \<Rightarrow> AlertState \<Rightarrow> gomail_Message" where
  "alert_mail recipient a \<equiv>
     SetBody ''text/plain'' (Details a)
       (SetHeader ''Subject'' [Message a]
         (SetAddressHeader ''To'' recipient ''''
           (SetAddressHeader ''From'' ''consul-alerting@noreply.com'' ''Consul Alerting'' NewMessage)))"


section \<open>Failures and their log entries\<close>

text \<open>Whether an event is a log entry.\<close>

fun is_log :: "event \<Rightarrow> bool" where
  "is_log (LogEntry l lvl line) = True"
| "is_log _ = False"

text \<open>
  The number of errors an event reports to the handler: one for a failed lookup,
  delivery or post, and the errors of a PagerDuty response.
\<close>

fun reported_errors :: "event \<Rightarrow> nat" where
  "reported_errors (MXLookup name (Inl err)) = 1"
| "reported_errors (SendMail d m (Some err)) = 1"
| "reported_errors (PostWebhook url msg (Some err)) = 1"
| "reported_errors (PagerDutyCall client req errs) = length errs"
| "reported_errors _ = 0"



section \<open>Lemmas on the building blocks\<close>

declare email_retry.simps [simp del]
declare slack_retry.simps [simp del]
declare digits.simps [simp del]

lemma new_events_append: "events s' = events s @ es \<Longrightarrow> new_events s s' = es"
  by (simp add: new_events_def)

section \<open>PagerdutyHandler\<close>

text \<open>The loop over the errors of the response logs each of them and nothing else.\<close>

lemma pd_errors_loop:
  "for_range (\<lambda>err s'. (Normal, log_Error (f err (alert s')) s')) errs s =
     (Normal, s\<lparr>events := events s @ map (\<lambda>err. LogEntry std_logger ErrorLevel (f err (alert s))) errs\<rparr>)"
  by (induction errs arbitrary: s) (simp_all add: log_Error_def log_at_def emit_def)

text \<open>The whole call, written out.\<close>

lemma PagerdutyHandler_Alert_eq:
  "PagerdutyHandler_Alert h dc s =
     (Normal,
      s\<lparr>pd_replies := (\<lambda>n. pd_replies s (Suc n)),
        events := events s @
           PagerDutyCall \<lparr>ClientKey = ServiceKey h, MaxRetry = PagerdutyHandler.MaxRetries h\<rparr>
             (if Status (alert s) \<noteq> HealthPassing
              then Trigger (dc @ ''-'' @ Service (alert s) @ ''-'' @ Tag (alert s) @ ''-'' @ Node (alert s))
                     (Message (alert s)) '''' '''' (Details (alert s))
              else Resolve (dc @ ''-'' @ Service (alert s) @ ''-'' @ Tag (alert s) @ ''-'' @ Node (alert s))
                     (Message (alert s)) (Details (alert s)))
             (pd_replies s 0)
           # map (\<lambda>err. LogEntry std_logger ErrorLevel
                    (''Error sending alert to PagerDuty: '' @ err @ '' (details: ''
                     @ Details (alert s) @ '', message: '' @ Message (alert s) @ '')''))
               (pd_replies s 0)\<rparr>)"
  unfolding PagerdutyHandler_Alert_def Let_def
  using pd_errors_loop [of "\<lambda>err a. ''Error sending alert to PagerDuty: '' @ err @ '' (details: ''
                                       @ Details a @ '', message: '' @ Message a @ '')''"]
  by (simp add: client_Trigger_def client_Resolve_def pd_call_def emit_def NewClient_def)

lemma pd_requests_logs [simp]:
  "pd_requests (map (\<lambda>err. LogEntry l lvl (f err)) errs) = []"
  by (induction errs) simp_all

text \<open>
  C1. The incident key that \<open>PagerdutyHandler.Alert\<close> sends is the datacenter, the
  service, the tag and the node joined by "-". It is the same for any handler, any
  state of the outside world and any status, message and details of the alert, so a
  trigger and a later resolve for the same entity carry the same key.
\<close>

theorem incident_key_is_concatenation:
  "map request_key (pd_requests (new_events s (snd (PagerdutyHandler_Alert h dc s)))) =
     [dc @ ''-'' @ Service (alert s) @ ''-'' @ Tag (alert s) @ ''-'' @ Node (alert s)]
   \<and> map request_key (pd_requests (new_events s'
        (snd (PagerdutyHandler_Alert h' dc
               (s'\<lparr>alert := (alert s)\<lparr>Status := st, Message := m, Details := d\<rparr>\<rparr>))))) =
     map request_key (pd_requests (new_events s (snd (PagerdutyHandler_Alert h dc s))))"
  by (simp add: PagerdutyHandler_Alert_eq new_events_def)

text \<open>Scenarios 1 and 2 of the specification: both calls use the key us-east-web-v2-node-1.\<close>

theorem incident_key_is_concatenation_witness:
  "map request_key (pd_requests (new_events (scenario (Pagerduty pagerduty_example) web_critical mx_found always_refused)
      (snd (PagerdutyHandler_Alert pagerduty_example ''us-east''
              (scenario (Pagerduty pagerduty_example) web_critical mx_found always_refused))))) =
     [''us-east-web-v2-node-1'']
   \<and> map request_key (pd_requests (new_events (scenario (Pagerduty pagerduty_example) web_passing mx_found always_refused)
      (snd (PagerdutyHandler_Alert pagerduty_example ''us-east''
              (scenario (Pagerduty pagerduty_example) web_passing mx_found always_refused))))) =
     [''us-east-web-v2-node-1'']"
proof -
  let ?s = "scenario (Pagerduty pagerduty_example) web_critical mx_found always_refused"
  let ?s' = "scenario (Pagerduty pagerduty_example) web_passing mx_found always_refused"
  have eq: "?s'\<lparr>alert := (alert ?s)\<lparr>Status := ''passing'', Message := ''web healthy'', Details := ''''\<rparr>\<rparr> = ?s'"
    by (simp add: scenario_def web_passing_def)
  have key: "[''us-east'' @ ''-'' @ Service (alert ?s) @ ''-'' @ Tag (alert ?s) @ ''-'' @ Node (alert ?s)]
      = [''us-east-web-v2-node-1'']"
    by (simp add: scenario_def web_critical_def)
  from incident_key_is_concatenation
         [where s = ?s and h = pagerduty_example and dc = "''us-east''" and s' = ?s'
            and h' = pagerduty_example and st = "''passing''" and m = "''web healthy''" and d = "''''"]
  show ?thesis unfolding eq key by simp
qed

text \<open>
  C2. \<open>PagerdutyHandler.Alert\<close> makes exactly one call of the PagerDuty client. When the
  status is not passing it is a trigger with the incident key, the message as the
  description and the details; when the status is passing it is a resolve with the same
  key.
\<close>

theorem exactly_one_trigger_or_resolve:
  "(Status (alert s) \<noteq> HealthPassing \<longrightarrow>
      pd_requests (new_events s (snd (PagerdutyHandler_Alert h dc s))) =
        [Trigger (dc @ ''-'' @ Service (alert s) @ ''-'' @ Tag (alert s) @ ''-'' @ Node (alert s))
           (Message (alert s)) '''' '''' (Details (alert s))])
   \<and> (Status (alert s) = HealthPassing \<longrightarrow>
      pd_requests (new_events s (snd (PagerdutyHandler_Alert h dc s))) =
        [Resolve (dc @ ''-'' @ Service (alert s) @ ''-'' @ Tag (alert s) @ ''-'' @ Node (alert s))
           (Message (alert s)) (Details (alert s))])"
  by (simp add: PagerdutyHandler_Alert_eq new_events_def)

theorem exactly_one_trigger_or_resolve_witness:
  "Status web_critical \<noteq> HealthPassing
   \<and> pd_requests (new_events (scenario (Pagerduty pagerduty_example) web_critical mx_found always_refused)
        (snd (PagerdutyHandler_Alert pagerduty_example ''us-east''
                (scenario (Pagerduty pagerduty_example) web_critical mx_found always_refused)))) =
       [Trigger ''us-east-web-v2-node-1'' ''web unhealthy'' '''' '''' ''line1\<newline>line2'']
   \<and> Status web_passing = HealthPassing
   \<and> pd_requests (new_events (scenario (Pagerduty pagerduty_example) web_passing mx_found always_refused)
        (snd (PagerdutyHandler_Alert pagerduty_example ''us-east''
                (scenario (Pagerduty pagerduty_example) web_passing mx_found always_refused)))) =
       [Resolve ''us-east-web-v2-node-1'' ''web healthy'' '''']"
proof -
  let ?s = "scenario (Pagerduty pagerduty_example) web_critical mx_found always_refused"
  let ?s' = "scenario (Pagerduty pagerduty_example) web_passing mx_found always_refused"
  have a: "alert ?s = web_critical" "alert ?s' = web_passing"
    by (simp_all add: scenario_def)
  have c: "Status web_critical \<noteq> HealthPassing" "Status web_passing = HealthPassing"
    by (simp_all add: web_critical_def web_passing_def HealthPassing_def)
  have v: "''us-east'' @ ''-'' @ Service web_critical @ ''-'' @ Tag web_critical @ ''-'' @ Node web_critical
             = ''us-east-web-v2-node-1''"
          "''us-east'' @ ''-'' @ Service web_passing @ ''-'' @ Tag web_passing @ ''-'' @ Node web_passing
             = ''us-east-web-v2-node-1''"
          "Message web_critical = ''web unhealthy''" "Details web_critical = ''line1\<newline>line2''"
          "Message web_passing = ''web healthy''" "Details web_passing = ''''"
    by (simp_all add: web_critical_def web_passing_def)
  from exactly_one_trigger_or_resolve [of ?s pagerduty_example "''us-east''"]
       exactly_one_trigger_or_resolve [of ?s' pagerduty_example "''us-east''"]
  show ?thesis unfolding a v using c by simp
qed

section \<open>StdoutHandler\<close>

lemma for_range_log:
  assumes "\<And>x s. step x s = (Normal, log_at l lvl x s)"
  shows "for_range step xs s = (Normal, s\<lparr>events := events s @ map (LogEntry l lvl) xs\<rparr>)"
  by (induction xs arbitrary: s) (simp_all add: assms log_at_def emit_def)

lemma for_range_skip:
  assumes "\<And>x s. step x s = (Normal, s)"
  shows "for_range step xs s = (Normal, s)"
  by (induction xs arbitrary: s) (simp_all add: assms)

lemma for_range_abort:
  "step x s = (out, s') \<Longrightarrow> out \<noteq> Normal \<Longrightarrow> for_range step (x # xs) s = (out, s')"
  by (cases out) simp_all

lemma StdoutHandler_Alert_lines:
  "StdoutHandler_Alert U h dc s =
     for_range (stdout_line U h)
       (Message (alert s) # (if Details (alert s) = '''' then [] else Split (Details (alert s)) CHR ''\<newline>'')) s"
  by (simp add: StdoutHandler_Alert_def)

text \<open>
  C6, as the code has it. The lines are the message and, when the details are not
  empty, the pieces of the details between newlines. With the level error, warn or
  warning, info, or debug (the configured string lower-cased, so in any case) each line
  becomes one log entry at that level, the message first. With panic or fatal only the
  message is logged, at that level, and the call ends there in a panic or by leaving the
  process. With any other level nothing is logged.
\<close>

theorem stdout_lines_at_level:
  "(ToLower U (LogLevel h) = ''error'' \<longrightarrow>
      StdoutHandler_Alert U h dc s =
        (Normal, s\<lparr>events := events s @ map (LogEntry (logger h) ErrorLevel)
           (Message (alert s) # (if Details (alert s) = '''' then []
                                 else Split (Details (alert s)) CHR ''\<newline>''))\<rparr>))
   \<and> (ToLower U (LogLevel h) = ''warn'' \<or> ToLower U (LogLevel h) = ''warning'' \<longrightarrow>
      StdoutHandler_Alert U h dc s =
        (Normal, s\<lparr>events := events s @ map (LogEntry (logger h) WarnLevel)
           (Message (alert s) # (if Details (alert s) = '''' then []
                                 else Split (Details (alert s)) CHR ''\<newline>''))\<rparr>))
   \<and> (ToLower U (LogLevel h) = ''info'' \<longrightarrow>
      StdoutHandler_Alert U h dc s =
        (Normal, s\<lparr>events := events s @ map (LogEntry (logger h) InfoLevel)
           (Message (alert s) # (if Details (alert s) = '''' then []
                                 else Split (Details (alert s)) CHR ''\<newline>''))\<rparr>))
   \<and> (ToLower U (LogLevel h) = ''debug'' \<longrightarrow>
      StdoutHandler_Alert U h dc s =
        (Normal, s\<lparr>events := events s @ map (LogEntry (logger h) DebugLevel)
           (Message (alert s) # (if Details (alert s) = '''' then []
                                 else Split (Details (alert s)) CHR ''\<newline>''))\<rparr>))
   \<and> (ToLower U (LogLevel h) = ''panic'' \<longrightarrow>
      StdoutHandler_Alert U h dc s =
        (Panic (LogrusEntry PanicLevel (Message (alert s))),
         s\<lparr>events := events s @ [LogEntry (logger h) PanicLevel (Message (alert s))]\<rparr>))
   \<and> (ToLower U (LogLevel h) = ''fatal'' \<longrightarrow>
      StdoutHandler_Alert U h dc s =
        (Exit 1, s\<lparr>events := events s @ [LogEntry (logger h) FatalLevel (Message (alert s))]\<rparr>))
   \<and> (ToLower U (LogLevel h) \<notin> {''panic'', ''fatal'', ''error'', ''warn'', ''warning'', ''info'', ''debug''} \<longrightarrow>
      StdoutHandler_Alert U h dc s = (Normal, s))
   \<and> (list_all is_ascii (LogLevel h) \<longrightarrow> ToLower U (LogLevel h) = map lower_byte (LogLevel h))"
proof -
  let ?lvl = "ToLower U (LogLevel h)"
  let ?lines = "Message (alert s) # (if Details (alert s) = '''' then []
                                 else Split (Details (alert s)) CHR ''\<newline>'')"
  have e: "?lvl = ''error'' \<Longrightarrow> for_range (stdout_line U h) ?lines s =
      (Normal, s\<lparr>events := events s @ map (LogEntry (logger h) ErrorLevel) ?lines\<rparr>)"
    by (rule for_range_log) (simp add: stdout_line_def Logger_Error_def)
  have w: "?lvl = ''warn'' \<or> ?lvl = ''warning'' \<Longrightarrow> for_range (stdout_line U h) ?lines s =
      (Normal, s\<lparr>events := events s @ map (LogEntry (logger h) WarnLevel) ?lines\<rparr>)"
    by (rule for_range_log) (auto simp add: stdout_line_def Logger_Warn_def)
  have i: "?lvl = ''info'' \<Longrightarrow> for_range (stdout_line U h) ?lines s =
      (Normal, s\<lparr>events := events s @ map (LogEntry (logger h) InfoLevel) ?lines\<rparr>)"
    by (rule for_range_log) (simp add: stdout_line_def Logger_Info_def)
  have d: "?lvl = ''debug'' \<Longrightarrow> for_range (stdout_line U h) ?lines s =
      (Normal, s\<lparr>events := events s @ map (LogEntry (logger h) DebugLevel) ?lines\<rparr>)"
    by (rule for_range_log) (simp add: stdout_line_def Logger_Debug_def)
  have p: "?lvl = ''panic'' \<Longrightarrow> for_range (stdout_line U h) ?lines s =
      (Panic (LogrusEntry PanicLevel (Message (alert s))),
         s\<lparr>events := events s @ [LogEntry (logger h) PanicLevel (Message (alert s))]\<rparr>)"
    by (rule for_range_abort) (simp_all add: stdout_line_def Logger_Panic_def log_at_def emit_def)
  have f: "?lvl = ''fatal'' \<Longrightarrow> for_range (stdout_line U h) ?lines s =
      (Exit 1, s\<lparr>events := events s @ [LogEntry (logger h) FatalLevel (Message (alert s))]\<rparr>)"
    by (rule for_range_abort) (simp_all add: stdout_line_def Logger_Fatal_def log_at_def emit_def)
  have n: "?lvl \<notin> {''panic'', ''fatal'', ''error'', ''warn'', ''warning'', ''info'', ''debug''} \<Longrightarrow>
      for_range (stdout_line U h) ?lines s = (Normal, s)"
    by (rule for_range_skip) (simp add: stdout_line_def)
  have a: "list_all is_ascii (LogLevel h) \<Longrightarrow> ?lvl = map lower_byte (LogLevel h)"
    by (simp add: ToLower_def)
  show ?thesis
    unfolding StdoutHandler_Alert_lines using e w i d p f n a by blast
qed

lemma at_console_simps:
  "events (at_console l) = []" "Message (alert (at_console l)) = ''web unhealthy''"
  "Details (alert (at_console l)) = ''line1\<newline>line2''"
  by (simp_all add: at_console_def scenario_def web_critical_def)

lemma lower_examples:
  "ToLower id ''ERROR'' = ''error''" "ToLower id ''warn'' = ''warn''"
  "ToLower id ''Warning'' = ''warning''" "ToLower id ''Info'' = ''info''"
  "ToLower id ''debug'' = ''debug''" "ToLower id ''Panic'' = ''panic''"
  "ToLower id ''FATAL'' = ''fatal''" "ToLower id ''verbose'' = ''verbose''"
  by (simp_all add: ToLower_def is_ascii_def lower_byte_def)

theorem stdout_lines_at_level_witness:
  "StdoutHandler_Alert id (console ''ERROR'') ''us-east'' (at_console ''ERROR'') =
     (Normal, (at_console ''ERROR'')\<lparr>events := map (LogEntry (logger_at 0) ErrorLevel)
        [''web unhealthy'', ''line1'', ''line2'']\<rparr>)
   \<and> StdoutHandler_Alert id (console ''warn'') ''us-east'' (at_console ''warn'') =
     (Normal, (at_console ''warn'')\<lparr>events := map (LogEntry (logger_at 0) WarnLevel)
        [''web unhealthy'', ''line1'', ''line2'']\<rparr>)
   \<and> StdoutHandler_Alert id (console ''Info'') ''us-east'' (at_console ''Info'') =
     (Normal, (at_console ''Info'')\<lparr>events := map (LogEntry (logger_at 0) InfoLevel)
        [''web unhealthy'', ''line1'', ''line2'']\<rparr>)
   \<and> StdoutHandler_Alert id (console ''debug'') ''us-east'' (at_console ''debug'') =
     (Normal, (at_console ''debug'')\<lparr>events := map (LogEntry (logger_at 0) DebugLevel)
        [''web unhealthy'', ''line1'', ''line2'']\<rparr>)
   \<and> StdoutHandler_Alert id (console ''Panic'') ''us-east'' (at_console ''Panic'') =
     (Panic (LogrusEntry PanicLevel ''web unhealthy''),
      (at_console ''Panic'')\<lparr>events := [LogEntry (logger_at 0) PanicLevel ''web unhealthy'']\<rparr>)
   \<and> StdoutHandler_Alert id (console ''FATAL'') ''us-east'' (at_console ''FATAL'') =
     (Exit 1, (at_console ''FATAL'')\<lparr>events := [LogEntry (logger_at 0) FatalLevel ''web unhealthy'']\<rparr>)
   \<and> StdoutHandler_Alert id (console ''verbose'') ''us-east'' (at_console ''verbose'') =
     (Normal, at_console ''verbose'')
   \<and> list_all is_ascii ''Warning'' \<and> ToLower id ''Warning'' = map lower_byte ''Warning''"
proof -
  have sp: "Split ''line1\<newline>line2'' CHR ''\<newline>'' = [''line1'', ''line2'']"
    by simp
  have asc: "list_all is_ascii ''Warning''"
    by (simp add: is_ascii_def)
  have 1: "StdoutHandler_Alert id (console ''ERROR'') ''us-east'' (at_console ''ERROR'') =
     (Normal, (at_console ''ERROR'')\<lparr>events := map (LogEntry (logger_at 0) ErrorLevel)
        [''web unhealthy'', ''line1'', ''line2'']\<rparr>)"
    using stdout_lines_at_level [of id "console ''ERROR''" "''us-east''" "at_console ''ERROR''"]
    by (simp add: console_def lower_examples at_console_simps sp)
  have 2: "StdoutHandler_Alert id (console ''warn'') ''us-east'' (at_console ''warn'') =
     (Normal, (at_console ''warn'')\<lparr>events := map (LogEntry (logger_at 0) WarnLevel)
        [''web unhealthy'', ''line1'', ''line2'']\<rparr>)"
    using stdout_lines_at_level [of id "console ''warn''" "''us-east''" "at_console ''warn''"]
    by (simp add: console_def lower_examples at_console_simps sp)
  have 3: "StdoutHandler_Alert id (console ''Info'') ''us-east'' (at_console ''Info'') =
     (Normal, (at_console ''Info'')\<lparr>events := map (LogEntry (logger_at 0) InfoLevel)
        [''web unhealthy'', ''line1'', ''line2'']\<rparr>)"
    using stdout_lines_at_level [of id "console ''Info''" "''us-east''" "at_console ''Info''"]
    by (simp add: console_def lower_examples at_console_simps sp)
  have 4: "StdoutHandler_Alert id (console ''debug'') ''us-east'' (at_console ''debug'') =
     (Normal, (at_console ''debug'')\<lparr>events := map (LogEntry (logger_at 0) DebugLevel)
        [''web unhealthy'', ''line1'', ''line2'']\<rparr>)"
    using stdout_lines_at_level [of id "console ''debug''" "''us-east''" "at_console ''debug''"]
    by (simp add: console_def lower_examples at_console_simps sp)
  have 5: "StdoutHandler_Alert id (console ''Panic'') ''us-east'' (at_console ''Panic'') =
     (Panic (LogrusEntry PanicLevel ''web unhealthy''),
      (at_console ''Panic'')\<lparr>events := [LogEntry (logger_at 0) PanicLevel ''web unhealthy'']\<rparr>)"
    using stdout_lines_at_level [of id "console ''Panic''" "''us-east''" "at_console ''Panic''"]
    by (simp add: console_def lower_examples at_console_simps sp)
  have 6: "StdoutHandler_Alert id (console ''FATAL'') ''us-east'' (at_console ''FATAL'') =
     (Exit 1, (at_console ''FATAL'')\<lparr>events := [LogEntry (logger_at 0) FatalLevel ''web unhealthy'']\<rparr>)"
    using stdout_lines_at_level [of id "console ''FATAL''" "''us-east''" "at_console ''FATAL''"]
    by (simp add: console_def lower_examples at_console_simps sp)
  have 7: "StdoutHandler_Alert id (console ''verbose'') ''us-east'' (at_console ''verbose'') =
     (Normal, at_console ''verbose'')"
    using stdout_lines_at_level [of id "console ''verbose''" "''us-east''" "at_console ''verbose''"]
    by (simp add: console_def lower_examples at_console_simps sp)
  have 8: "ToLower id ''Warning'' = map lower_byte ''Warning''"
    using stdout_lines_at_level [of id "console ''Warning''" "''us-east''" "at_console ''Warning''"] asc
    by (simp add: console_def)
  from 1 2 3 4 5 6 7 8 asc show ?thesis by blast
qed

text \<open>
  C6 as it is stated fails at the level panic: with the details "line1", newline,
  "line2", the only entry is the message, and the two lines of the details are not
  logged.
\<close>

theorem stdout_panic_drops_details:
  "log_entries (new_events (at_console ''panic'')
      (snd (StdoutHandler_Alert id (console ''panic'') ''us-east'' (at_console ''panic'')))) =
     [(logger_at 0, PanicLevel, ''web unhealthy'')]
   \<and> log_entries (new_events (at_console ''panic'')
      (snd (StdoutHandler_Alert id (console ''panic'') ''us-east'' (at_console ''panic'')))) \<noteq>
     [(logger_at 0, PanicLevel, ''web unhealthy''), (logger_at 0, PanicLevel, ''line1''),
      (logger_at 0, PanicLevel, ''line2'')]"
  by (simp add: StdoutHandler_Alert_def stdout_line_def console_def ToLower_def is_ascii_def
        lower_byte_def Logger_Panic_def log_at_def emit_def new_events_def at_console_simps)

section \<open>Retrying\<close>

lemma email_retry_stop:
  "\<not> tries \<le> EmailHandler.MaxRetries h \<Longrightarrow> email_retry h d m tries s = s"
  by (simp add: email_retry.simps)

lemma email_retry_ok:
  "tries \<le> EmailHandler.MaxRetries h \<Longrightarrow> send_replies s 0 = None \<Longrightarrow>
   email_retry h d m tries s =
     s\<lparr>send_replies := (\<lambda>n. send_replies s (Suc n)), events := events s @ [SendMail d m None]\<rparr>"
  by (subst email_retry.simps) (simp add: DialAndSend_def emit_def)

lemma email_retry_fail:
  "tries \<le> EmailHandler.MaxRetries h \<Longrightarrow> send_replies s 0 = Some err \<Longrightarrow>
   email_retry h d m tries s =
     email_retry h d m (tries + 1)
       (s\<lparr>send_replies := (\<lambda>n. send_replies s (Suc n)),
          events := events s @
            [SendMail d m (Some err),
             LogEntry std_logger ErrorLevel (''Error sending alert email: '' @ err),
             LogEntry std_logger ErrorLevel ''Retrying email in 5s...'',
             Sleep 5]\<rparr>)"
  by (subst email_retry.simps)
     (simp add: DialAndSend_def emit_def time_Sleep_def log_Error_def log_at_def)


lemma sends_append [simp]: "sends (xs @ ys) = sends xs @ sends ys"
  by (induction xs rule: sends.induct) simp_all

lemma posts_append [simp]: "posts (xs @ ys) = posts xs @ posts ys"
  by (induction xs rule: posts.induct) simp_all

lemma lookups_append [simp]: "lookups (xs @ ys) = lookups xs @ lookups ys"
  by (induction xs rule: lookups.induct) simp_all

lemma sends_email_failed [simp]:
  "sends (concat (map (\<lambda>j. [SendMail (d j) (m j) (r j), LogEntry l1 v1 (g1 j), LogEntry l2 v2 (g2 j),
                              Sleep (t j)]) js)) =
     map (\<lambda>j. (d j, m j, r j)) js"
  by (induction js) simp_all

lemma lookups_email_failed [simp]:
  "lookups (concat (map (\<lambda>j. [SendMail (d j) (m j) (r j), LogEntry l1 v1 (g1 j), LogEntry l2 v2 (g2 j),
                                Sleep (t j)]) js)) = []"
  by (induction js) simp_all



lemma slack_retry_stop:
  "\<not> tries \<le> SlackHandler.MaxRetries h \<Longrightarrow> slack_retry h msg tries s = s"
  by (simp add: slack_retry.simps)

lemma slack_retry_ok:
  "tries \<le> SlackHandler.MaxRetries h \<Longrightarrow> post_replies s 0 = None \<Longrightarrow>
   slack_retry h msg tries s =
     s\<lparr>clock := (\<lambda>n. clock s (Suc n)),
       post_replies := (\<lambda>n. post_replies s (Suc n)),
       events := events s @ [PostWebhook (Token h) (slack_payload msg (clock s 0)) None]\<rparr>"
  by (subst slack_retry.simps) (simp add: slack_PostWebhook_def time_Now_Unix_def emit_def)

lemma slack_retry_fail:
  "tries \<le> SlackHandler.MaxRetries h \<Longrightarrow> post_replies s 0 = Some err \<Longrightarrow>
   slack_retry h msg tries s =
     slack_retry h msg (tries + 1)
       (s\<lparr>clock := (\<lambda>n. clock s (Suc n)),
          post_replies := (\<lambda>n. post_replies s (Suc n)),
          events := events s @ slack_failed h msg (clock s 0) (Some err)\<rparr>)"
  by (subst slack_retry.simps)
     (simp add: slack_PostWebhook_def time_Now_Unix_def emit_def time_Sleep_def log_Error_def
        log_at_def fmt_Println_def)

lemma slack_retry_failures:
  "(\<forall>j<k. post_replies s j \<noteq> None) \<Longrightarrow> tries + int k \<le> SlackHandler.MaxRetries h + 1 \<Longrightarrow>
   slack_retry h msg tries s =
     slack_retry h msg (tries + int k)
       (s\<lparr>clock := (\<lambda>n. clock s (n + k)),
          post_replies := (\<lambda>n. post_replies s (n + k)),
          events := events s @
            concat (map (\<lambda>j. slack_failed h msg (clock s j) (post_replies s j)) [0..<k])\<rparr>)"
proof (induction k)
  case 0
  then show ?case by simp
next
  case (Suc k)
  let ?sk = "s\<lparr>clock := (\<lambda>n. clock s (n + k)),
          post_replies := (\<lambda>n. post_replies s (n + k)),
          events := events s @
            concat (map (\<lambda>j. slack_failed h msg (clock s j) (post_replies s j)) [0..<k])\<rparr>"
  from Suc.prems obtain err where err: "post_replies s k = Some err" by auto
  have "slack_retry h msg tries s = slack_retry h msg (tries + int k) ?sk"
    using Suc by simp
  also have "\<dots> = slack_retry h msg (tries + int k + 1)
       (?sk\<lparr>clock := (\<lambda>n. clock ?sk (Suc n)),
          post_replies := (\<lambda>n. post_replies ?sk (Suc n)),
          events := events ?sk @ slack_failed h msg (clock ?sk 0) (Some err)\<rparr>)"
    using Suc.prems err by (intro slack_retry_fail) simp_all
  finally have calc: "slack_retry h msg tries s = slack_retry h msg (tries + int k + 1)
       (?sk\<lparr>clock := (\<lambda>n. clock ?sk (Suc n)),
          post_replies := (\<lambda>n. post_replies ?sk (Suc n)),
          events := events ?sk @ slack_failed h msg (clock ?sk 0) (Some err)\<rparr>)" .
  have t_eq: "tries + int (Suc k) = tries + int k + 1" by simp
  have s_eq: "s\<lparr>clock := (\<lambda>n. clock s (n + Suc k)),
          post_replies := (\<lambda>n. post_replies s (n + Suc k)),
          events := events s @
            concat (map (\<lambda>j. slack_failed h msg (clock s j) (post_replies s j)) [0..<Suc k])\<rparr> =
       ?sk\<lparr>clock := (\<lambda>n. clock ?sk (Suc n)),
          post_replies := (\<lambda>n. post_replies ?sk (Suc n)),
          events := events ?sk @ slack_failed h msg (clock ?sk 0) (Some err)\<rparr>"
    by (simp add: err)
  show ?case unfolding t_eq s_eq by (fact calc)
qed

lemma slack_retry_exhausted:
  assumes "0 \<le> SlackHandler.MaxRetries h"
    and "\<forall>j \<le> nat (SlackHandler.MaxRetries h). post_replies s j \<noteq> None"
  shows "slack_retry h msg 0 s =
     s\<lparr>clock := (\<lambda>n. clock s (n + (nat (SlackHandler.MaxRetries h) + 1))),
       post_replies := (\<lambda>n. post_replies s (n + (nat (SlackHandler.MaxRetries h) + 1))),
       events := events s @
         concat (map (\<lambda>j. slack_failed h msg (clock s j) (post_replies s j))
                   [0..<nat (SlackHandler.MaxRetries h) + 1])\<rparr>"
proof -
  let ?k = "nat (SlackHandler.MaxRetries h) + 1"
  let ?sk = "s\<lparr>clock := (\<lambda>n. clock s (n + ?k)),
          post_replies := (\<lambda>n. post_replies s (n + ?k)),
          events := events s @
            concat (map (\<lambda>j. slack_failed h msg (clock s j) (post_replies s j)) [0..<?k])\<rparr>"
  have "slack_retry h msg 0 s = slack_retry h msg (0 + int ?k) ?sk"
    using assms by (intro slack_retry_failures) (simp_all add: less_Suc_eq_le)
  also have "\<dots> = ?sk"
    using assms(1) by (intro slack_retry_stop) simp
  finally show ?thesis .
qed

lemma slack_retry_success:
  assumes "\<forall>j<k. post_replies s j \<noteq> None" and "post_replies s k = None"
    and "int k \<le> SlackHandler.MaxRetries h"
  shows "slack_retry h msg 0 s =
     s\<lparr>clock := (\<lambda>n. clock s (n + (k + 1))),
       post_replies := (\<lambda>n. post_replies s (n + (k + 1))),
       events := events s @
         concat (map (\<lambda>j. slack_failed h msg (clock s j) (post_replies s j)) [0..<k]) @
         [PostWebhook (Token h) (slack_payload msg (clock s k)) None]\<rparr>"
proof -
  let ?sk = "s\<lparr>clock := (\<lambda>n. clock s (n + k)),
          post_replies := (\<lambda>n. post_replies s (n + k)),
          events := events s @
            concat (map (\<lambda>j. slack_failed h msg (clock s j) (post_replies s j)) [0..<k])\<rparr>"
  have "slack_retry h msg 0 s = slack_retry h msg (0 + int k) ?sk"
    using assms by (intro slack_retry_failures) simp_all
  also have "\<dots> = ?sk\<lparr>clock := (\<lambda>n. clock ?sk (Suc n)),
       post_replies := (\<lambda>n. post_replies ?sk (Suc n)),
       events := events ?sk @ [PostWebhook (Token h) (slack_payload msg (clock ?sk 0)) None]\<rparr>"
    using assms by (intro slack_retry_ok) simp_all
  also have "\<dots> = s\<lparr>clock := (\<lambda>n. clock s (n + (k + 1))),
       post_replies := (\<lambda>n. post_replies s (n + (k + 1))),
       events := events s @
         concat (map (\<lambda>j. slack_failed h msg (clock s j) (post_replies s j)) [0..<k]) @
         [PostWebhook (Token h) (slack_payload msg (clock s k)) None]\<rparr>"
    by simp
  finally show ?thesis .
qed

lemma posts_slack_failed [simp]:
  "posts (concat (map (\<lambda>j. [PostWebhook (u j) (p j) (r j), Println (a j), LogEntry l1 v1 (g1 j),
                              LogEntry l2 v2 (g2 j), Sleep (t j)]) js)) =
     map (\<lambda>j. (u j, p j, r j)) js"
  by (induction js) simp_all

section \<open>EmailHandler\<close>

lemma Split_nonempty [simp]: "Split s c \<noteq> []"
  by (induction s) (auto split: list.splits)

lemma length_Split: "length (Split s c) = Suc (length (filter (\<lambda>x. x = c) s))"
  by (induction s) (auto split: list.splits)

lemma Split_no_sep: "c \<notin> set s \<Longrightarrow> Split s c = [s]"
  by (induction s) auto

lemma Split_at_first: "c \<notin> set u \<Longrightarrow> Split (u @ c # v) c = u # Split v c"
  by (induction u) auto

lemma hd_Split: "hd (Split v c) = takeWhile (\<lambda>x. x \<noteq> c) v"
  by (induction v) (auto split: list.splits)

lemma one_less_length_Split: "c \<in> set s \<longleftrightarrow> 1 < length (Split s c)"
  by (auto simp: length_Split filter_empty_conv)

lemma index_Split_domain:
  "c \<in> set s \<Longrightarrow> index (Split s c) 1 = Inr (Split s c ! 1)"
  "c \<notin> set s \<Longrightarrow> index (Split s c) 1 = Inl (IndexOutOfRange 1 1)"
  using one_less_length_Split [of c s] by (simp_all add: index_def Split_no_sep)

lemma Split_domain:
  assumes "c \<notin> set u"
  shows "Split (u @ c # v) c ! 1 = takeWhile (\<lambda>x. x \<noteq> c) v"
  using hd_Split [of v c] Split_nonempty [of v c]
  by (cases "Split v c") (simp_all add: Split_at_first [OF assms])

lemma for_range_append:
  "for_range step (xs @ ys) s =
     (case for_range step xs s of (Normal, s') \<Rightarrow> for_range step ys s' | (out, s') \<Rightarrow> (out, s'))"
  by (induction xs arbitrary: s) (auto split: prod.splits outcome.splits)

lemma email_retry_shape:
  "\<exists>k es. email_retry h d m tries s =
       s\<lparr>send_replies := (\<lambda>n. send_replies s (n + k)), events := events s @ es\<rparr>
     \<and> lookups es = [] \<and> (\<forall>x \<in> set (sends es). fst x = d \<and> fst (snd x) = m)"
proof (induction "nat (EmailHandler.MaxRetries h + 1 - tries)" arbitrary: tries s)
  case 0
  then have "\<not> tries \<le> EmailHandler.MaxRetries h" by simp
  then have "email_retry h d m tries s = s\<lparr>send_replies := (\<lambda>n. send_replies s (n + 0)), events := events s @ []\<rparr>"
    by (simp add: email_retry_stop)
  then show ?case by fastforce
next
  case (Suc x)
  then have le: "tries \<le> EmailHandler.MaxRetries h" by simp
  show ?case
  proof (cases "send_replies s 0")
    case None
    have "email_retry h d m tries s =
        s\<lparr>send_replies := (\<lambda>n. send_replies s (n + 1)), events := events s @ [SendMail d m None]\<rparr>"
      using email_retry_ok [OF le None] by simp
    moreover have "lookups [SendMail d m None] = []
        \<and> (\<forall>x \<in> set (sends [SendMail d m None]). fst x = d \<and> fst (snd x) = m)"
      by simp
    ultimately show ?thesis by blast
  next
    case (Some err)
    let ?s1 = "s\<lparr>send_replies := (\<lambda>n. send_replies s (Suc n)),
          events := events s @ email_failed d m (Some err)\<rparr>"
    have "x = nat (EmailHandler.MaxRetries h + 1 - (tries + 1))"
      using Suc.hyps(2) by simp
    from Suc.hyps(1) [OF this, of ?s1] obtain k es where
      r: "email_retry h d m (tries + 1) ?s1 =
            ?s1\<lparr>send_replies := (\<lambda>n. send_replies ?s1 (n + k)), events := events ?s1 @ es\<rparr>"
      and l: "lookups es = []" and a: "\<forall>x \<in> set (sends es). fst x = d \<and> fst (snd x) = m"
      by blast
    have "email_retry h d m tries s = email_retry h d m (tries + 1) ?s1"
      using email_retry_fail [OF le Some] by simp
    also have "\<dots> = s\<lparr>send_replies := (\<lambda>n. send_replies s (n + Suc k)),
          events := events s @ (email_failed d m (Some err) @ es)\<rparr>"
      unfolding r by simp
    finally have "email_retry h d m tries s = s\<lparr>send_replies := (\<lambda>n. send_replies s (n + Suc k)),
          events := events s @ (email_failed d m (Some err) @ es)\<rparr>" .
    moreover have "lookups (email_failed d m (Some err) @ es) = []
          \<and> (\<forall>x \<in> set (sends (email_failed d m (Some err) @ es)). fst x = d \<and> fst (snd x) = m)"
      using l a by simp
    ultimately show ?thesis by blast
  qed
qed

lemma email_retry_sends_first:
  assumes "0 \<le> EmailHandler.MaxRetries h"
  shows "sends (new_events s (email_retry h d m 0 s)) \<noteq> []"
proof (cases "send_replies s 0")
  case None
  then show ?thesis
    using email_retry_ok [OF assms None] by (simp add: new_events_def)
next
  case (Some err)
  let ?s1 = "s\<lparr>send_replies := (\<lambda>n. send_replies s (Suc n)),
          events := events s @ email_failed d m (Some err)\<rparr>"
  obtain k es where "email_retry h d m (0 + 1) ?s1 =
            ?s1\<lparr>send_replies := (\<lambda>n. send_replies ?s1 (n + k)), events := events ?s1 @ es\<rparr>"
    using email_retry_shape by blast
  then show ?thesis
    using email_retry_fail [OF assms Some] by (simp add: new_events_def)
qed

lemma index_Nil: "index [] i = Inl (IndexOutOfRange i 0)"
  by (simp add: index_def)

lemma index_Cons_0: "index (x # xs) 0 = Inr x"
  by (simp add: index_def)

lemma email_recipient_no_at:
  "CHR ''@'' \<notin> set r \<Longrightarrow> email_recipient h r s = (Panic (IndexOutOfRange 1 1), s)"
  by (simp add: email_recipient_def index_Split_domain [unfolded One_nat_def])

lemma email_recipient_mx_error:
  "CHR ''@'' \<in> set r \<Longrightarrow> mx_replies s 0 = Inl err \<Longrightarrow>
   email_recipient h r s =
     (Normal,
      s\<lparr>mx_replies := (\<lambda>n. mx_replies s (Suc n)),
        events := events s @
          [MXLookup (Split r CHR ''@'' ! 1) (Inl err),
           LogEntry std_logger ErrorLevel (''Error looking up email server: '' @ err)]\<rparr>)"
  by (simp add: email_recipient_def index_Split_domain [unfolded One_nat_def] net_LookupMX_def emit_def log_Error_def
      log_at_def)

lemma email_recipient_no_records:
  "CHR ''@'' \<in> set r \<Longrightarrow> mx_replies s 0 = Inr [] \<Longrightarrow>
   email_recipient h r s =
     (Panic (IndexOutOfRange 0 0),
      s\<lparr>mx_replies := (\<lambda>n. mx_replies s (Suc n)),
        events := events s @ [MXLookup (Split r CHR ''@'' ! 1) (Inr [])]\<rparr>)"
  by (simp add: email_recipient_def index_Split_domain [unfolded One_nat_def] net_LookupMX_def emit_def index_Nil index_Cons_0)

lemma email_recipient_send:
  "CHR ''@'' \<in> set r \<Longrightarrow> mx_replies s 0 = Inr (mx # mxs) \<Longrightarrow>
   email_recipient h r s =
     (Normal,
      email_retry h (NewPlainDialer (Host mx) 25 '''' '''') (alert_mail r (alert s)) 0
        (s\<lparr>mx_replies := (\<lambda>n. mx_replies s (Suc n)),
           events := events s @ [MXLookup (Split r CHR ''@'' ! 1) (Inr (mx # mxs))]\<rparr>))"
  by (simp add: email_recipient_def index_Split_domain [unfolded One_nat_def] net_LookupMX_def emit_def index_Nil index_Cons_0)

lemma email_recipient_shape:
  assumes "CHR ''@'' \<in> set r" and "mx_replies s 0 \<noteq> Inr []"
  shows "\<exists>sr es. email_recipient h r s =
            (Normal, s\<lparr>mx_replies := (\<lambda>n. mx_replies s (Suc n)), send_replies := sr,
                       events := events s @ MXLookup (Split r CHR ''@'' ! 1) (mx_replies s 0) # es\<rparr>)
          \<and> lookups es = []"
proof (cases "mx_replies s 0")
  case (Inl err)
  have "email_recipient h r s =
      (Normal, s\<lparr>mx_replies := (\<lambda>n. mx_replies s (Suc n)), send_replies := send_replies s,
                 events := events s @ MXLookup (Split r CHR ''@'' ! 1) (mx_replies s 0) #
                   [LogEntry std_logger ErrorLevel (''Error looking up email server: '' @ err)]\<rparr>)"
    using email_recipient_mx_error [OF assms(1) Inl] by (simp add: Inl)
  moreover have "lookups [LogEntry std_logger ErrorLevel (''Error looking up email server: '' @ err)] = []"
    by simp
  ultimately show ?thesis by blast
next
  case (Inr recs)
  with assms(2) obtain mx mxs where recs: "recs = mx # mxs" by (cases recs) auto
  let ?s1 = "s\<lparr>mx_replies := (\<lambda>n. mx_replies s (Suc n)),
           events := events s @ [MXLookup (Split r CHR ''@'' ! 1) (Inr (mx # mxs))]\<rparr>"
  obtain k es where
    e: "email_retry h (NewPlainDialer (Host mx) 25 '''' '''') (alert_mail r (alert s)) 0 ?s1 =
          ?s1\<lparr>send_replies := (\<lambda>n. send_replies ?s1 (n + k)), events := events ?s1 @ es\<rparr>"
    and l: "lookups es = []"
    using email_retry_shape by blast
  have "email_recipient h r s =
      (Normal, s\<lparr>mx_replies := (\<lambda>n. mx_replies s (Suc n)), send_replies := (\<lambda>n. send_replies s (n + k)),
                 events := events s @ MXLookup (Split r CHR ''@'' ! 1) (mx_replies s 0) # es\<rparr>)"
    using email_recipient_send [OF assms(1), of s mx mxs h] Inr recs e by simp
  with l show ?thesis by blast
qed

lemma email_loop_shape:
  assumes "\<forall>r \<in> set rs. CHR ''@'' \<in> set r" and "\<forall>i < length rs. mx_replies s i \<noteq> Inr []"
  shows "\<exists>sr es. for_range (email_recipient h) rs s =
            (Normal, s\<lparr>mx_replies := (\<lambda>n. mx_replies s (n + length rs)), send_replies := sr,
                       events := events s @ es\<rparr>)
          \<and> lookups es = map (\<lambda>r. Split r CHR ''@'' ! 1) rs"
  using assms
proof (induction rs arbitrary: s)
  case Nil
  have "for_range (email_recipient h) [] s =
      (Normal, s\<lparr>mx_replies := (\<lambda>n. mx_replies s (n + length ([]::string list))),
                 send_replies := send_replies s, events := events s @ []\<rparr>)"
    by simp
  then show ?case by fastforce
next
  case (Cons r rs)
  from Cons.prems have at: "CHR ''@'' \<in> set r" and mx0: "mx_replies s 0 \<noteq> Inr []"
    by auto
  from email_recipient_shape [OF at mx0, of h] obtain sr es where
    step: "email_recipient h r s =
            (Normal, s\<lparr>mx_replies := (\<lambda>n. mx_replies s (Suc n)), send_replies := sr,
                       events := events s @ MXLookup (Split r CHR ''@'' ! 1) (mx_replies s 0) # es\<rparr>)"
    and l: "lookups es = []"
    by blast
  let ?s1 = "s\<lparr>mx_replies := (\<lambda>n. mx_replies s (Suc n)), send_replies := sr,
                       events := events s @ MXLookup (Split r CHR ''@'' ! 1) (mx_replies s 0) # es\<rparr>"
  have "\<forall>r \<in> set rs. CHR ''@'' \<in> set r" "\<forall>i < length rs. mx_replies ?s1 i \<noteq> Inr []"
    using Cons.prems by auto
  from Cons.IH [OF this] obtain sr' es' where
    rest: "for_range (email_recipient h) rs ?s1 =
            (Normal, ?s1\<lparr>mx_replies := (\<lambda>n. mx_replies ?s1 (n + length rs)), send_replies := sr',
                       events := events ?s1 @ es'\<rparr>)"
    and l': "lookups es' = map (\<lambda>r. Split r CHR ''@'' ! 1) rs"
    by blast
  have "for_range (email_recipient h) (r # rs) s =
      (Normal, s\<lparr>mx_replies := (\<lambda>n. mx_replies s (n + length (r # rs))), send_replies := sr',
                 events := events s @ (MXLookup (Split r CHR ''@'' ! 1) (mx_replies s 0) # es @ es')\<rparr>)"
    using step rest by simp
  moreover have "lookups (MXLookup (Split r CHR ''@'' ! 1) (mx_replies s 0) # es @ es') =
      map (\<lambda>r. Split r CHR ''@'' ! 1) (r # rs)"
    using l l' by simp
  ultimately show ?case by blast
qed

lemma EmailHandler_Alert_normal:
  assumes "\<forall>r \<in> set (Recipients h). CHR ''@'' \<in> set r"
    and "\<forall>i < length (Recipients h). mx_replies s i \<noteq> Inr []"
  shows "fst (EmailHandler_Alert h dc s) = Normal"
    and "lookups (new_events s (snd (EmailHandler_Alert h dc s))) =
           map (\<lambda>r. Split r CHR ''@'' ! 1) (Recipients h)"
  using email_loop_shape [OF assms, of h]
  by (auto simp: EmailHandler_Alert_def new_events_def)




lemma alert_mail_fields:
  "header (alert_mail r a) ''From'' = Some (Address ''consul-alerting@noreply.com'' ''Consul Alerting'')"
  "header (alert_mail r a) ''To'' = Some (Address r '''')"
  "header (alert_mail r a) ''Subject'' = Some (Text [Message a])"
  "dom (header (alert_mail r a)) = {''From'', ''To'', ''Subject''}"
  "body (alert_mail r a) = Some (''text/plain'', Details a)"
  by (auto simp: SetBody_def SetHeader_def SetAddressHeader_def NewMessage_def)

lemma email_recipient_sends:
  assumes "CHR ''@'' \<in> set r" and "mx_replies s 0 = Inr (mx # mxs)"
  shows "\<forall>x \<in> set (sends (new_events s (snd (email_recipient h r s)))).
           fst x = NewPlainDialer (Host mx) 25 '''' '''' \<and> fst (snd x) = alert_mail r (alert s)"
    and "0 \<le> EmailHandler.MaxRetries h \<Longrightarrow> sends (new_events s (snd (email_recipient h r s))) \<noteq> []"
    and "lookups (new_events s (snd (email_recipient h r s))) = [Split r CHR ''@'' ! 1]"
proof -
  let ?s1 = "s\<lparr>mx_replies := (\<lambda>n. mx_replies s (Suc n)),
           events := events s @ [MXLookup (Split r CHR ''@'' ! 1) (Inr (mx # mxs))]\<rparr>"
  let ?d = "NewPlainDialer (Host mx) 25 '''' ''''"
  let ?m = "alert_mail r (alert s)"
  have step: "snd (email_recipient h r s) = email_retry h ?d ?m 0 ?s1"
    using email_recipient_send [OF assms, of h] by simp
  obtain k es where
    e: "email_retry h ?d ?m 0 ?s1 =
          ?s1\<lparr>send_replies := (\<lambda>n. send_replies ?s1 (n + k)), events := events ?s1 @ es\<rparr>"
    and l: "lookups es = []" and a: "\<forall>x \<in> set (sends es). fst x = ?d \<and> fst (snd x) = ?m"
    using email_retry_shape by blast
  have new: "new_events s (snd (email_recipient h r s)) =
      MXLookup (Split r CHR ''@'' ! 1) (Inr (mx # mxs)) # es"
    unfolding step e by (simp add: new_events_def)
  show "\<forall>x \<in> set (sends (new_events s (snd (email_recipient h r s)))). fst x = ?d \<and> fst (snd x) = ?m"
    unfolding new using a by simp
  show "lookups (new_events s (snd (email_recipient h r s))) = [Split r CHR ''@'' ! 1]"
    unfolding new using l by simp
  show "sends (new_events s (snd (email_recipient h r s))) \<noteq> []" if "0 \<le> EmailHandler.MaxRetries h"
  proof -
    have "sends (new_events ?s1 (email_retry h ?d ?m 0 ?s1)) \<noteq> []"
      using that by (rule email_retry_sends_first)
    then have "sends es \<noteq> []"
      unfolding e by (simp add: new_events_def)
    then show ?thesis unfolding new by simp
  qed
qed

text \<open>
  C7. For a recipient with "@" whose MX lookup gives the servers \<open>mx # mxs\<close>, and
  \<open>MaxRetries\<close> not negative, \<open>EmailHandler.Alert\<close> attempts at least one delivery, and
  every attempt goes to the host of the first server on port 25 with empty user name
  and password, with a message whose headers are From (the fixed sender), To (the
  recipient) and Subject (the alert's message) and whose body is the alert's details as
  text/plain.
\<close>

theorem mail_is_composed:
  assumes "CHR ''@'' \<in> set r" and "mx_replies s 0 = Inr (mx # mxs)"
    and "0 \<le> EmailHandler.MaxRetries eh"
  shows
    "sends (new_events s (snd (email_recipient eh r s))) \<noteq> []
     \<and> (\<forall>(d, m, result) \<in> set (sends (new_events s (snd (email_recipient eh r s)))).
          d = \<lparr>DialHost = Host mx, Port = 25, Username = '''', Password = ''''\<rparr>
          \<and> header m ''From'' = Some (Address ''consul-alerting@noreply.com'' ''Consul Alerting'')
          \<and> header m ''To'' = Some (Address r '''')
          \<and> header m ''Subject'' = Some (Text [Message (alert s)])
          \<and> dom (header m) = {''From'', ''To'', ''Subject''}
          \<and> body m = Some (''text/plain'', Details (alert s)))"
proof -
  let ?sent = "sends (new_events s (snd (email_recipient eh r s)))"
  have all: "\<forall>x \<in> set ?sent. fst x = NewPlainDialer (Host mx) 25 '''' ''''
                \<and> fst (snd x) = alert_mail r (alert s)"
    by (rule email_recipient_sends(1) [OF assms(1,2)])
  have one: "d = \<lparr>DialHost = Host mx, Port = 25, Username = '''', Password = ''''\<rparr>
          \<and> header m ''From'' = Some (Address ''consul-alerting@noreply.com'' ''Consul Alerting'')
          \<and> header m ''To'' = Some (Address r '''')
          \<and> header m ''Subject'' = Some (Text [Message (alert s)])
          \<and> dom (header m) = {''From'', ''To'', ''Subject''}
          \<and> body m = Some (''text/plain'', Details (alert s))"
    if "(d, m, result) \<in> set ?sent" for d m result
  proof -
    from all that have "fst (d, m, result) = NewPlainDialer (Host mx) 25 '''' ''''"
      and "fst (snd (d, m, result)) = alert_mail r (alert s)"
      by blast+
    then have d: "d = NewPlainDialer (Host mx) 25 '''' ''''" and m: "m = alert_mail r (alert s)"
      by simp_all
    show ?thesis
      unfolding d m
      by (intro conjI alert_mail_fields) (simp add: NewPlainDialer_def)
  qed
  have "?sent \<noteq> []"
    by (rule email_recipient_sends(2) [OF assms])
  with one show ?thesis by blast
qed

theorem mail_is_composed_witness:
  "sends (new_events (at_mail mx_found third_accepted)
      (snd (email_recipient mail_example ''a@example.com'' (at_mail mx_found third_accepted)))) \<noteq> []
   \<and> fst (hd (sends (new_events (at_mail mx_found third_accepted)
      (snd (email_recipient mail_example ''a@example.com'' (at_mail mx_found third_accepted)))))) =
       \<lparr>DialHost = ''mx.example.com'', Port = 25, Username = '''', Password = ''''\<rparr>
   \<and> header (fst (snd (hd (sends (new_events (at_mail mx_found third_accepted)
      (snd (email_recipient mail_example ''a@example.com'' (at_mail mx_found third_accepted)))))))) ''To'' =
       Some (Address ''a@example.com'' '''')
   \<and> header (fst (snd (hd (sends (new_events (at_mail mx_found third_accepted)
      (snd (email_recipient mail_example ''a@example.com'' (at_mail mx_found third_accepted)))))))) ''Subject'' =
       Some (Text [''web unhealthy''])
   \<and> body (fst (snd (hd (sends (new_events (at_mail mx_found third_accepted)
      (snd (email_recipient mail_example ''a@example.com'' (at_mail mx_found third_accepted)))))))) =
       Some (''text/plain'', ''line1\<newline>line2'')"
proof -
  let ?s = "at_mail mx_found third_accepted"
  let ?sent = "sends (new_events ?s (snd (email_recipient mail_example ''a@example.com'' ?s)))"
  have h: "CHR ''@'' \<in> set ''a@example.com''"
    "mx_replies ?s 0 = Inr (\<lparr>Host = ''mx.example.com'', Pref = 10\<rparr> # [])"
    "0 \<le> EmailHandler.MaxRetries mail_example"
    by (simp_all add: at_mail_def scenario_def mx_found_def mail_example_def)
  have a: "Message (alert ?s) = ''web unhealthy''" "Details (alert ?s) = ''line1\<newline>line2''"
    by (simp_all add: at_mail_def scenario_def web_critical_def)
  note t = mail_is_composed [OF h]
  from t have ne: "?sent \<noteq> []" by blast
  then have "hd ?sent \<in> set ?sent" by simp
  moreover obtain d m result where x: "hd ?sent = (d, m, result)"
    by (cases "hd ?sent") auto
  ultimately have "(d, m, result) \<in> set ?sent" by simp
  with t [THEN conjunct2] have "case (d, m, result) of (d, m, result) \<Rightarrow>
          d = \<lparr>DialHost = Host \<lparr>Host = ''mx.example.com'', Pref = 10\<rparr>, Port = 25,
                Username = [], Password = []\<rparr>
          \<and> header m ''From'' = Some (Address ''consul-alerting@noreply.com'' ''Consul Alerting'')
          \<and> header m ''To'' = Some (Address ''a@example.com'' [])
          \<and> header m ''Subject'' = Some (Text [Message (alert ?s)])
          \<and> dom (header m) = {''From'', ''To'', ''Subject''}
          \<and> body m = Some (''text/plain'', Details (alert ?s))"
    by (rule bspec)
  then have "d = \<lparr>DialHost = Host \<lparr>Host = ''mx.example.com'', Pref = 10\<rparr>, Port = 25,
                     Username = [], Password = []\<rparr>
          \<and> header m ''To'' = Some (Address ''a@example.com'' [])
          \<and> header m ''Subject'' = Some (Text [Message (alert ?s)])
          \<and> body m = Some (''text/plain'', Details (alert ?s))"
    by simp
  with ne show ?thesis unfolding x a by simp
qed

text \<open>
  C10. The domain looked up is element 1 of the recipient split on "@" (for a recipient
  \<open>u@v\<close> with no "@" in \<open>u\<close>, the part of \<open>v\<close> before its first "@"), and the host dialled
  is that of element 0 of the records. A recipient without "@" makes the call panic with
  index 1 out of range for length 1, before anything is done for it and whatever comes
  after it in the list. With "@" in the recipient and a non-empty list of records both
  accesses succeed; with an empty list of records the second one panics. When every
  recipient has "@" and no lookup returns an empty list, the whole call returns
  normally.
\<close>

theorem domain_and_host_indexing:
  "(CHR ''@'' \<notin> set r \<longrightarrow> email_recipient eh r s = (Panic (IndexOutOfRange 1 1), s))
   \<and> (CHR ''@'' \<in> set r \<longrightarrow>
        lookups (new_events s (snd (email_recipient eh r s))) = [Split r CHR ''@'' ! 1])
   \<and> (CHR ''@'' \<notin> set u \<longrightarrow>
        Split (u @ CHR ''@'' # v) CHR ''@'' ! 1 = takeWhile (\<lambda>c. c \<noteq> CHR ''@'') v)
   \<and> (CHR ''@'' \<in> set r \<and> mx_replies s 0 = Inr recs \<and> recs \<noteq> [] \<longrightarrow>
        fst (email_recipient eh r s) = Normal
        \<and> (\<forall>x \<in> set (sends (new_events s (snd (email_recipient eh r s)))).
              DialHost (fst x) = Host (recs ! 0)))
   \<and> (CHR ''@'' \<in> set r \<and> mx_replies s 0 = Inr [] \<longrightarrow>
        fst (email_recipient eh r s) = Panic (IndexOutOfRange 0 0))
   \<and> ((\<forall>x \<in> set (Recipients eh). CHR ''@'' \<in> set x)
        \<and> (\<forall>i < length (Recipients eh). mx_replies s i \<noteq> Inr []) \<longrightarrow>
        fst (EmailHandler_Alert eh dc s) = Normal)
   \<and> (Recipients eh = before @ r # rest \<and> (\<forall>x \<in> set before. CHR ''@'' \<in> set x)
        \<and> (\<forall>i < length before. mx_replies s i \<noteq> Inr []) \<and> CHR ''@'' \<notin> set r \<longrightarrow>
        fst (EmailHandler_Alert eh dc s) = Panic (IndexOutOfRange 1 1))"
proof -
  have 1: "email_recipient eh r s = (Panic (IndexOutOfRange 1 1), s)" if "CHR ''@'' \<notin> set r"
    using that by (rule email_recipient_no_at)
  have 2: "lookups (new_events s (snd (email_recipient eh r s))) = [Split r CHR ''@'' ! 1]"
    if at: "CHR ''@'' \<in> set r"
  proof (cases "mx_replies s 0")
    case (Inl err)
    show ?thesis
      using email_recipient_mx_error [OF at Inl, of eh] by (simp add: new_events_def)
  next
    case (Inr recs)
    show ?thesis
    proof (cases recs)
      case Nil
      then show ?thesis
        using email_recipient_no_records [OF at, of s eh] Inr by (simp add: new_events_def)
    next
      case (Cons mx mxs)
      then show ?thesis
        using email_recipient_sends(3) [OF at, of s mx mxs eh] Inr by simp
    qed
  qed
  have 3: "Split (u @ CHR ''@'' # v) CHR ''@'' ! 1 = takeWhile (\<lambda>c. c \<noteq> CHR ''@'') v"
    if "CHR ''@'' \<notin> set u"
    using that by (rule Split_domain)
  have 4: "fst (email_recipient eh r s) = Normal
        \<and> (\<forall>x \<in> set (sends (new_events s (snd (email_recipient eh r s)))).
              DialHost (fst x) = Host (recs ! 0))"
    if at: "CHR ''@'' \<in> set r" and mx: "mx_replies s 0 = Inr recs" and ne: "recs \<noteq> []"
  proof -
    from ne obtain mx1 mxs where recs: "recs = mx1 # mxs" by (cases recs) auto
    have "fst (email_recipient eh r s) = Normal"
      using email_recipient_send [OF at, of s mx1 mxs eh] mx recs by simp
    moreover have "\<forall>x \<in> set (sends (new_events s (snd (email_recipient eh r s)))).
              DialHost (fst x) = Host (recs ! 0)"
      using email_recipient_sends(1) [OF at, of s mx1 mxs eh] mx recs
      by (simp add: NewPlainDialer_def)
    ultimately show ?thesis by blast
  qed
  have 5: "fst (email_recipient eh r s) = Panic (IndexOutOfRange 0 0)"
    if "CHR ''@'' \<in> set r" "mx_replies s 0 = Inr []"
    using email_recipient_no_records [OF that, of eh] by simp
  have 6: "fst (EmailHandler_Alert eh dc s) = Normal"
    if "\<forall>x \<in> set (Recipients eh). CHR ''@'' \<in> set x"
      "\<forall>i < length (Recipients eh). mx_replies s i \<noteq> Inr []"
    using that by (rule EmailHandler_Alert_normal(1))
  have 7: "fst (EmailHandler_Alert eh dc s) = Panic (IndexOutOfRange 1 1)"
    if split: "Recipients eh = before @ r # rest" and ok: "\<forall>x \<in> set before. CHR ''@'' \<in> set x"
      "\<forall>i < length before. mx_replies s i \<noteq> Inr []" and bad: "CHR ''@'' \<notin> set r"
  proof -
    from email_loop_shape [OF ok, of eh] obtain s' where
      "for_range (email_recipient eh) before s = (Normal, s')"
      by blast
    then show ?thesis
      unfolding EmailHandler_Alert_def split for_range_append
      by (simp add: email_recipient_no_at [OF bad])
  qed
  have i1: "CHR ''@'' \<notin> set r \<longrightarrow> email_recipient eh r s = (Panic (IndexOutOfRange 1 1), s)"
    using 1 by (rule impI)
  have i2: "CHR ''@'' \<in> set r \<longrightarrow>
        lookups (new_events s (snd (email_recipient eh r s))) = [Split r CHR ''@'' ! 1]"
    using 2 by (rule impI)
  have i3: "CHR ''@'' \<notin> set u \<longrightarrow>
        Split (u @ CHR ''@'' # v) CHR ''@'' ! 1 = takeWhile (\<lambda>c. c \<noteq> CHR ''@'') v"
    using 3 by (rule impI)
  have i4: "CHR ''@'' \<in> set r \<and> mx_replies s 0 = Inr recs \<and> recs \<noteq> [] \<longrightarrow>
        fst (email_recipient eh r s) = Normal
        \<and> (\<forall>x \<in> set (sends (new_events s (snd (email_recipient eh r s)))).
              DialHost (fst x) = Host (recs ! 0))"
    using 4 by (intro impI; elim conjE)
  have i5: "CHR ''@'' \<in> set r \<and> mx_replies s 0 = Inr [] \<longrightarrow>
        fst (email_recipient eh r s) = Panic (IndexOutOfRange 0 0)"
    using 5 by (intro impI; elim conjE)
  have i6: "(\<forall>x \<in> set (Recipients eh). CHR ''@'' \<in> set x)
        \<and> (\<forall>i < length (Recipients eh). mx_replies s i \<noteq> Inr []) \<longrightarrow>
        fst (EmailHandler_Alert eh dc s) = Normal"
    using 6 by (intro impI; elim conjE)
  have i7: "Recipients eh = before @ r # rest \<and> (\<forall>x \<in> set before. CHR ''@'' \<in> set x)
        \<and> (\<forall>i < length before. mx_replies s i \<noteq> Inr []) \<and> CHR ''@'' \<notin> set r \<longrightarrow>
        fst (EmailHandler_Alert eh dc s) = Panic (IndexOutOfRange 1 1)"
    using 7 by (intro impI; elim conjE)
  show ?thesis
    by (intro conjI i1 i2 i3 i4 i5 i6 i7)
qed

theorem domain_and_host_indexing_witness:
  "email_recipient mail_bad ''ops'' (at_mail mx_found always_refused) =
     (Panic (IndexOutOfRange 1 1), at_mail mx_found always_refused)
   \<and> lookups (new_events (at_mail mx_found always_refused)
        (snd (email_recipient mail_bad ''a@example.com'' (at_mail mx_found always_refused)))) =
       [''example.com'']
   \<and> Split (''a'' @ CHR ''@'' # ''example.com'') CHR ''@'' ! 1 = ''example.com''
   \<and> fst (email_recipient mail_bad ''a@example.com'' (at_mail mx_found always_refused)) = Normal
   \<and> DialHost (fst (hd (sends (new_events (at_mail mx_found always_refused)
        (snd (email_recipient mail_bad ''a@example.com'' (at_mail mx_found always_refused))))))) =
       ''mx.example.com''
   \<and> fst (email_recipient mail_bad ''a@example.com'' (at_mail mx_no_records always_refused)) =
       Panic (IndexOutOfRange 0 0)
   \<and> fst (EmailHandler_Alert mail_two ''us-east'' at_mail_two) = Normal
   \<and> fst (EmailHandler_Alert mail_bad ''us-east'' (at_mail mx_found always_refused)) =
       Panic (IndexOutOfRange 1 1)"
proof -
  let ?s = "at_mail mx_found always_refused"
  let ?e = "at_mail mx_no_records always_refused"
  let ?mx = "\<lparr>Host = ''mx.example.com'', Pref = 10\<rparr>"
  let ?sent = "sends (new_events ?s (snd (email_recipient mail_bad ''a@example.com'' ?s)))"
  have at: "CHR ''@'' \<notin> set ''ops''" "CHR ''@'' \<in> set ''a@example.com''" "CHR ''@'' \<notin> set ''a''"
    by simp_all
  have mx: "mx_replies ?s 0 = Inr [?mx]" "[?mx] \<noteq> []" "mx_replies ?e 0 = Inr []"
    by (simp_all add: at_mail_def scenario_def mx_found_def mx_no_records_def)
  have two: "\<forall>x \<in> set (Recipients mail_two). CHR ''@'' \<in> set x"
    "\<forall>i < length (Recipients mail_two). mx_replies at_mail_two i \<noteq> Inr []"
    by (simp_all add: mail_two_def at_mail_two_def scenario_def mx_first_fails_def)
  have bad: "Recipients mail_bad = [''a@example.com''] @ ''ops'' # [''c@example.net'']"
    "\<forall>x \<in> set [''a@example.com'']. CHR ''@'' \<in> set x"
    "\<forall>i < length [''a@example.com'']. mx_replies ?s i \<noteq> Inr []"
    by (simp_all add: mail_bad_def at_mail_def scenario_def mx_found_def)
  note t1 = domain_and_host_indexing [where r = "''ops''" and eh = mail_bad and s = ?s
      and before = "[''a@example.com'']" and rest = "[''c@example.net'']" and dc = "''us-east''"]
  note t2 = domain_and_host_indexing [where r = "''a@example.com''" and eh = mail_bad and s = ?s
      and u = "''a''" and v = "''example.com''" and recs = "[?mx]"]
  note t3 = domain_and_host_indexing [where r = "''a@example.com''" and eh = mail_bad and s = ?e]
  note t4 = domain_and_host_indexing [where eh = mail_two and s = at_mail_two and dc = "''us-east''"]
  have 1: "email_recipient mail_bad ''ops'' ?s = (Panic (IndexOutOfRange 1 1), ?s)"
    using t1 at(1) by blast
  have 2: "lookups (new_events ?s (snd (email_recipient mail_bad ''a@example.com'' ?s))) = [''example.com'']"
    using t2 at(2) by simp
  have 3: "Split (''a'' @ CHR ''@'' # ''example.com'') CHR ''@'' ! 1 = ''example.com''"
    using t2 at(3) by simp
  have 4: "fst (email_recipient mail_bad ''a@example.com'' ?s) = Normal"
    and all: "\<forall>x \<in> set ?sent. DialHost (fst x) = Host ([?mx] ! 0)"
    using t2 at(2) mx(1,2) by blast+
  have "?sent \<noteq> []"
    using email_recipient_sends(2) [OF at(2) mx(1), of mail_bad] by (simp add: mail_bad_def)
  then have "hd ?sent \<in> set ?sent" by simp
  with all have 5: "DialHost (fst (hd ?sent)) = ''mx.example.com''"
    by simp
  have 6: "fst (email_recipient mail_bad ''a@example.com'' ?e) = Panic (IndexOutOfRange 0 0)"
    using t3 at(2) mx(3) by blast
  have 7: "fst (EmailHandler_Alert mail_two ''us-east'' at_mail_two) = Normal"
    using t4 two by blast
  have 8: "fst (EmailHandler_Alert mail_bad ''us-east'' ?s) = Panic (IndexOutOfRange 1 1)"
    using t1 bad at(1) by blast
  show ?thesis
    by (intro conjI 1 2 3 4 5 6 7 8)
qed

section \<open>The attempts of a retry\<close>




section \<open>SlackHandler\<close>

lemma first_success_cases:
  fixes replies :: "nat \<Rightarrow> string option" and maxr :: int
  obtains (never) "maxr < 0"
  | (exhausted) "0 \<le> maxr" "\<forall>j \<le> nat maxr. replies j \<noteq> None"
  | (success) n where "\<forall>j<n. replies j \<noteq> None" "replies n = None" "int n \<le> maxr"
proof (cases "maxr < 0")
  case True
  then show ?thesis by (rule never)
next
  case False
  then have nn: "0 \<le> maxr" by simp
  show ?thesis
  proof (cases "\<forall>j \<le> nat maxr. replies j \<noteq> None")
    case True
    with nn show ?thesis by (rule exhausted)
  next
    case False
    then have "\<exists>j. replies j = None" by auto
    then obtain n where n: "replies n = None" "\<forall>m<n. replies m \<noteq> None"
      using exists_least_iff [of "\<lambda>j. replies j = None"] by blast
    from False obtain j where "j \<le> nat maxr" "replies j = None" by blast
    with n(2) have "n \<le> nat maxr"
      by (meson leI le_trans)
    then have "int n \<le> maxr" using nn by simp
    with n show ?thesis by (intro success) auto
  qed
qed

lemma slack_failed_not_log:
  "filter (\<lambda>e. \<not> is_log e)
     (concat (map (\<lambda>j. [PostWebhook (u j) (p j) (r j), Println (a j), LogEntry l1 v1 (g1 j),
                        LogEntry l2 v2 (g2 j), Sleep (t j)]) js)) =
   concat (map (\<lambda>j. [PostWebhook (u j) (p j) (r j), Println (a j), Sleep (t j)]) js)"
  by (induction js) simp_all

lemma SlackHandler_Alert_snd:
  "snd (SlackHandler_Alert h dc s) =
     slack_retry h (slackMessageFormat (Message (alert s)) (Details (alert s))) 0 s"
  by (simp add: SlackHandler_Alert_def)

lemma slack_events_never:
  "SlackHandler.MaxRetries h < 0 \<Longrightarrow> new_events s (snd (SlackHandler_Alert h dc s)) = []"
  by (simp add: SlackHandler_Alert_snd slack_retry_stop new_events_def)

lemma slack_events_exhausted:
  assumes "0 \<le> SlackHandler.MaxRetries h"
    and "\<forall>j \<le> nat (SlackHandler.MaxRetries h). post_replies s j \<noteq> None"
  shows "new_events s (snd (SlackHandler_Alert h dc s)) =
     concat (map (\<lambda>j. slack_failed h (slackMessageFormat (Message (alert s)) (Details (alert s)))
                         (clock s j) (post_replies s j))
               [0..<nat (SlackHandler.MaxRetries h) + 1])"
  unfolding SlackHandler_Alert_snd slack_retry_exhausted [OF assms]
  by (simp add: new_events_def)

lemma slack_events_success:
  assumes "\<forall>j<n. post_replies s j \<noteq> None" and "post_replies s n = None"
    and "int n \<le> SlackHandler.MaxRetries h"
  shows "new_events s (snd (SlackHandler_Alert h dc s)) =
     concat (map (\<lambda>j. slack_failed h (slackMessageFormat (Message (alert s)) (Details (alert s)))
                         (clock s j) (post_replies s j)) [0..<n])
     @ [PostWebhook (Token h)
          (slack_payload (slackMessageFormat (Message (alert s)) (Details (alert s))) (clock s n)) None]"
  unfolding SlackHandler_Alert_snd slack_retry_success [OF assms]
  by (simp add: new_events_def)

text \<open>
  C8. Every post of \<open>SlackHandler.Alert\<close> goes to the webhook of the configured token and
  carries one attachment: its text is a newline, the message between asterisks, a
  newline, the details and a newline; the other fields are the fixed branding; the
  timestamp is the Unix time read before that post, in decimal. With \<open>MaxRetries\<close> not
  negative there is at least one post. Changing \<open>ChannelName\<close> changes nothing but log
  entries.
\<close>

theorem slack_posts_one_attachment:
  "posts (new_events s (snd (SlackHandler_Alert sh dc s))) =
     map (\<lambda>j. (Token sh,
                \<lparr>Attachments =
                   [\<lparr>Color = ''good'',
                     Fallback = [],
                     AuthorName = ''https://github.com/kyhavlov/consul-alerting'',
                     AuthorSubname = ''github.com'',
                     AuthorLink = ''https://github.com/kyhavlov'',
                     AuthorIcon = ''https://avatars2.githubusercontent.com/u/4177697?s=400&v=4'',
                     AttText = ''\<newline>*'' @ Message (alert s) @ ''*\<newline>'' @ Details (alert s)
                               @ ''\<newline>'',
                     Footer = ''consul-alerting'',
                     FooterIcon = ''https://platform.slack-edge.com/img/default_application_icon.png'',
                     Ts = FormatInt (clock s j)\<rparr>]\<rparr>,
                post_replies s j))
       [0..<length (posts (new_events s (snd (SlackHandler_Alert sh dc s))))]
   \<and> (0 \<le> SlackHandler.MaxRetries sh \<longrightarrow>
        posts (new_events s (snd (SlackHandler_Alert sh dc s))) \<noteq> [])
   \<and> filter (\<lambda>e. \<not> is_log e)
        (new_events s (snd (SlackHandler_Alert (sh\<lparr>ChannelName := c\<rparr>) dc s))) =
      filter (\<lambda>e. \<not> is_log e) (new_events s (snd (SlackHandler_Alert sh dc s)))"
proof (rule first_success_cases [where maxr = "SlackHandler.MaxRetries sh" and replies = "post_replies s"])
  assume never: "SlackHandler.MaxRetries sh < 0"
  then have "SlackHandler.MaxRetries (sh\<lparr>ChannelName := c\<rparr>) < 0" by simp
  then show ?thesis
    using never by (simp add: slack_events_never)
next
  assume exhausted: "0 \<le> SlackHandler.MaxRetries sh"
    "\<forall>j \<le> nat (SlackHandler.MaxRetries sh). post_replies s j \<noteq> None"
  then have "0 \<le> SlackHandler.MaxRetries (sh\<lparr>ChannelName := c\<rparr>)"
    "\<forall>j \<le> nat (SlackHandler.MaxRetries (sh\<lparr>ChannelName := c\<rparr>)). post_replies s j \<noteq> None"
    by simp_all
  note other = slack_events_exhausted [OF this, of dc]
  show ?thesis
    unfolding other slack_events_exhausted [OF exhausted, of dc]
    by (simp add: slack_failed_not_log slackMessageFormat_def)
next
  fix n
  assume success: "\<forall>j<n. post_replies s j \<noteq> None" "post_replies s n = None"
    "int n \<le> SlackHandler.MaxRetries sh"
  then have "int n \<le> SlackHandler.MaxRetries (sh\<lparr>ChannelName := c\<rparr>)"
    by simp
  note other = slack_events_success [OF success(1,2) this, of dc]
  show ?thesis
    unfolding other slack_events_success [OF success, of dc]
    by (simp add: slack_failed_not_log slackMessageFormat_def success(2))
qed

theorem slack_posts_one_attachment_witness:
  "0 \<le> SlackHandler.MaxRetries slack_example
   \<and> posts (new_events (at_slack third_accepted)
        (snd (SlackHandler_Alert slack_example ''us-east'' (at_slack third_accepted)))) \<noteq> []
   \<and> length (posts (new_events (at_slack third_accepted)
        (snd (SlackHandler_Alert slack_example ''us-east'' (at_slack third_accepted))))) = 3
   \<and> posts (new_events (at_slack third_accepted)
        (snd (SlackHandler_Alert slack_example ''us-east'' (at_slack third_accepted)))) ! 2 =
       (''T000/B000/XXXX'',
        \<lparr>Attachments =
           [\<lparr>Color = ''good'',
             Fallback = [],
             AuthorName = ''https://github.com/kyhavlov/consul-alerting'',
             AuthorSubname = ''github.com'',
             AuthorLink = ''https://github.com/kyhavlov'',
             AuthorIcon = ''https://avatars2.githubusercontent.com/u/4177697?s=400&v=4'',
             AttText = ''\<newline>*web unhealthy*\<newline>line1\<newline>line2\<newline>'',
             Footer = ''consul-alerting'',
             FooterIcon = ''https://platform.slack-edge.com/img/default_application_icon.png'',
             Ts = ''1500000010''\<rparr>]\<rparr>,
        None)"
proof -
  let ?s = "at_slack third_accepted"
  let ?P = "posts (new_events ?s (snd (SlackHandler_Alert slack_example ''us-east'' ?s)))"
  have m: "0 \<le> SlackHandler.MaxRetries slack_example"
    by (simp add: slack_example_def)
  have f: "\<forall>j<2. post_replies ?s j \<noteq> None" "post_replies ?s 2 = None"
    "int 2 \<le> SlackHandler.MaxRetries slack_example"
    by (simp_all add: at_slack_def scenario_def third_accepted_def slack_example_def)
  have len: "length ?P = 3"
    unfolding slack_events_success [OF f] by simp
  have v: "Token slack_example = ''T000/B000/XXXX''" "Message (alert ?s) = ''web unhealthy''"
    "Details (alert ?s) = ''line1\<newline>line2''" "post_replies ?s (Suc (Suc 0)) = None"
    "FormatInt (clock ?s (Suc (Suc 0))) = ''1500000010''"
    by (simp_all add: slack_example_def at_slack_def scenario_def web_critical_def third_accepted_def
          ticking_def FormatInt_def digits.simps)
  note t = slack_posts_one_attachment [of ?s slack_example "''us-east''" "''#ops''"]
  from t m have ne: "?P \<noteq> []" by blast
  from t have "?P ! 2 = map (\<lambda>j. (Token slack_example,
                \<lparr>Attachments =
                   [\<lparr>Color = ''good'',
                     Fallback = [],
                     AuthorName = ''https://github.com/kyhavlov/consul-alerting'',
                     AuthorSubname = ''github.com'',
                     AuthorLink = ''https://github.com/kyhavlov'',
                     AuthorIcon = ''https://avatars2.githubusercontent.com/u/4177697?s=400&v=4'',
                     AttText = ''\<newline>*'' @ Message (alert ?s) @ ''*\<newline>'' @ Details (alert ?s)
                               @ ''\<newline>'',
                     Footer = ''consul-alerting'',
                     FooterIcon = ''https://platform.slack-edge.com/img/default_application_icon.png'',
                     Ts = FormatInt (clock ?s j)\<rparr>]\<rparr>,
                post_replies ?s j)) [0..<length ?P] ! 2"
    by (simp only:)
  then have third: "?P ! 2 = (''T000/B000/XXXX'',
        \<lparr>Attachments =
           [\<lparr>Color = ''good'',
             Fallback = [],
             AuthorName = ''https://github.com/kyhavlov/consul-alerting'',
             AuthorSubname = ''github.com'',
             AuthorLink = ''https://github.com/kyhavlov'',
             AuthorIcon = ''https://avatars2.githubusercontent.com/u/4177697?s=400&v=4'',
             AttText = ''\<newline>*web unhealthy*\<newline>line1\<newline>line2\<newline>'',
             Footer = ''consul-alerting'',
             FooterIcon = ''https://platform.slack-edge.com/img/default_application_icon.png'',
             Ts = ''1500000010''\<rparr>]\<rparr>,
        None)"
    unfolding len by (simp add: v)
  from m ne len third show ?thesis by (intro conjI)
qed

section \<open>What a call leaves unchanged\<close>

lemma for_range_frame:
  assumes "\<And>x s. receiver (snd (step x s)) = receiver s \<and> alert (snd (step x s)) = alert s"
  shows "receiver (snd (for_range step xs s)) = receiver s \<and> alert (snd (for_range step xs s)) = alert s"
proof (induction xs arbitrary: s)
  case Nil
  show ?case by simp
next
  case (Cons x xs)
  obtain out s' where st: "step x s = (out, s')" by (cases "step x s")
  with assms [of x s] have s': "receiver s' = receiver s" "alert s' = alert s" by simp_all
  show ?case
  proof (cases out)
    case Normal
    then show ?thesis using st s' Cons.IH [of s'] by simp
  next
    case (Panic p)
    then show ?thesis using st s' by simp
  next
    case (Exit c)
    then show ?thesis using st s' by simp
  qed
qed

lemma stdout_line_frame:
  "receiver (snd (stdout_line U h line s)) = receiver s \<and> alert (snd (stdout_line U h line s)) = alert s"
  by (simp add: stdout_line_def Let_def Logger_Panic_def Logger_Fatal_def Logger_Error_def
      Logger_Warn_def Logger_Info_def Logger_Debug_def log_at_def emit_def)

lemma email_retry_frame:
  "receiver (email_retry h d m tries s) = receiver s \<and> alert (email_retry h d m tries s) = alert s"
proof -
  obtain k es where "email_retry h d m tries s =
       s\<lparr>send_replies := (\<lambda>n. send_replies s (n + k)), events := events s @ es\<rparr>"
    using email_retry_shape by blast
  then show ?thesis by simp
qed

lemma email_recipient_frame:
  "receiver (snd (email_recipient h r s)) = receiver s \<and> alert (snd (email_recipient h r s)) = alert s"
proof (cases "CHR ''@'' \<in> set r")
  case False
  then show ?thesis by (simp add: email_recipient_no_at)
next
  case at: True
  show ?thesis
  proof (cases "mx_replies s 0")
    case (Inl err)
    show ?thesis by (simp add: email_recipient_mx_error [OF at Inl])
  next
    case (Inr recs)
    show ?thesis
    proof (cases recs)
      case Nil
      with Inr show ?thesis by (simp add: email_recipient_no_records [OF at])
    next
      case (Cons mx mxs)
      with Inr show ?thesis
        by (simp add: email_recipient_send [OF at] email_retry_frame)
    qed
  qed
qed

lemma slack_retry_frame:
  "receiver (slack_retry h msg 0 s) = receiver s \<and> alert (slack_retry h msg 0 s) = alert s"
proof (rule first_success_cases [where maxr = "SlackHandler.MaxRetries h" and replies = "post_replies s"])
  assume "SlackHandler.MaxRetries h < 0"
  then show ?thesis by (simp add: slack_retry_stop)
next
  assume "0 \<le> SlackHandler.MaxRetries h"
    "\<forall>j \<le> nat (SlackHandler.MaxRetries h). post_replies s j \<noteq> None"
  then show ?thesis by (simp add: slack_retry_exhausted)
next
  fix n
  assume "\<forall>j<n. post_replies s j \<noteq> None" "post_replies s n = None"
    "int n \<le> SlackHandler.MaxRetries h"
  then show ?thesis by (simp add: slack_retry_success)
qed

text \<open>
  C9. Whatever the handler and however the call ends, the handler object of the caller
  and the alert record are the same after \<open>Alert\<close> as before it.
\<close>

theorem alert_and_handler_unchanged:
  "receiver (snd (Alert U dc s)) = receiver s \<and> alert (snd (Alert U dc s)) = alert s"
proof (cases "receiver s")
  case (Stdout h)
  then show ?thesis
    using for_range_frame [of "stdout_line U h", OF stdout_line_frame]
    by (simp add: Alert_def StdoutHandler_Alert_def Let_def)
next
  case (Email h)
  then show ?thesis
    using for_range_frame [of "email_recipient h", OF email_recipient_frame]
    by (simp add: Alert_def EmailHandler_Alert_def)
next
  case (Pagerduty h)
  then show ?thesis
    by (simp add: Alert_def PagerdutyHandler_Alert_eq)
next
  case (Slack h)
  then show ?thesis
    by (simp add: Alert_def SlackHandler_Alert_snd slack_retry_frame)
qed

section \<open>What reaches the caller\<close>





lemma reported_MXLookup: "reported_errors (MXLookup n r) \<le> 1"
  by (cases r) simp_all













end
